theory Spec2Isabelle
  imports Complex_Main "HOL-Library.Word"
begin

unbundle bit_operations_syntax

section \<open>Single-precision arithmetic\<close>

text \<open>
  The C type \<open>float\<close> is taken to be IEEE 754 binary32 with the default rounding (to
  nearest, ties to even): each of \<open>+\<close>, \<open>-\<close>, \<open>*\<close>, \<open>/\<close> gives the exact result rounded
  once, with no excess precision and no fused multiply-add, a decimal literal is the nearest
  binary32 number, and the conversion from \<open>int16_t\<close> is exact. A finite value is carried
  as the rational number it denotes; infinities and NaN are values of their own. The two
  zeros are identified: the program never divides by a variable, and comparisons do not
  tell them apart.
\<close>

datatype float32 = NaN | PInf | NInf | Fin rat

text \<open>Nearest integer, ties to the even one.\<close>

definition rne :: "rat \<Rightarrow> int" where
  "rne x = (let f = \<lfloor>x\<rfloor>; d = x - of_int f in
     if d < 1 / 2 then f else if 1 / 2 < d then f + 1 else if even f then f else f + 1)"

text \<open>
  The binary exponent of a magnitude, kept inside the range of normal numbers
  \<open>-126 .. 127\<close>: smaller magnitudes are subnormal and share the exponent \<open>-126\<close>.
\<close>

fun norm_up :: "nat \<Rightarrow> rat \<Rightarrow> int \<Rightarrow> int" where
  "norm_up 0 a e = e"
| "norm_up (Suc n) a e = (if 2 \<le> a then norm_up n (a / 2) (e + 1) else e)"

fun norm_down :: "nat \<Rightarrow> rat \<Rightarrow> int \<Rightarrow> int" where
  "norm_down 0 a e = e"
| "norm_down (Suc n) a e = (if a < 1 then norm_down n (a * 2) (e - 1) else e)"

definition expo :: "rat \<Rightarrow> int" where
  "expo a = (if 1 \<le> a then norm_up 127 a 0 else norm_down 126 a 0)"

text \<open>
  Rounding of an exact result to binary32: 24 significant bits, so the spacing at exponent
  \<open>e\<close> is \<open>2 powi (e - 23)\<close>; a result that rounds to \<open>2 ^ 128\<close> or beyond is an infinity.
\<close>

definition round32 :: "rat \<Rightarrow> float32" where
  "round32 r = (let q = 2 powi (expo \<bar>r\<bar> - 23); v = of_int (rne (r / q)) * q in
     if 2 ^ 128 \<le> \<bar>v\<bar> then (if 0 < r then PInf else NInf) else Fin v)"

fun fneg :: "float32 \<Rightarrow> float32" where
  "fneg NaN = NaN"
| "fneg PInf = NInf"
| "fneg NInf = PInf"
| "fneg (Fin a) = Fin (- a)"

fun fadd :: "float32 \<Rightarrow> float32 \<Rightarrow> float32" where
  "fadd NaN y = NaN"
| "fadd x NaN = NaN"
| "fadd PInf NInf = NaN"
| "fadd NInf PInf = NaN"
| "fadd PInf y = PInf"
| "fadd NInf y = NInf"
| "fadd (Fin a) PInf = PInf"
| "fadd (Fin a) NInf = NInf"
| "fadd (Fin a) (Fin b) = round32 (a + b)"

definition fsub :: "float32 \<Rightarrow> float32 \<Rightarrow> float32" where
  "fsub x y = fadd x (fneg y)"

fun fmul :: "float32 \<Rightarrow> float32 \<Rightarrow> float32" where
  "fmul NaN y = NaN"
| "fmul x NaN = NaN"
| "fmul PInf PInf = PInf"
| "fmul PInf NInf = NInf"
| "fmul NInf PInf = NInf"
| "fmul NInf NInf = PInf"
| "fmul PInf (Fin b) = (if b = 0 then NaN else if 0 < b then PInf else NInf)"
| "fmul NInf (Fin b) = (if b = 0 then NaN else if 0 < b then NInf else PInf)"
| "fmul (Fin a) PInf = (if a = 0 then NaN else if 0 < a then PInf else NInf)"
| "fmul (Fin a) NInf = (if a = 0 then NaN else if 0 < a then NInf else PInf)"
| "fmul (Fin a) (Fin b) = round32 (a * b)"

text \<open>
  Division. With the zeros identified, a division by zero takes the sign of the dividend;
  the only divisor in the program is the constant \<open>1000.0f\<close>.
\<close>

fun fdiv :: "float32 \<Rightarrow> float32 \<Rightarrow> float32" where
  "fdiv NaN y = NaN"
| "fdiv x NaN = NaN"
| "fdiv PInf PInf = NaN"
| "fdiv PInf NInf = NaN"
| "fdiv NInf PInf = NaN"
| "fdiv NInf NInf = NaN"
| "fdiv PInf (Fin b) = (if 0 \<le> b then PInf else NInf)"
| "fdiv NInf (Fin b) = (if 0 \<le> b then NInf else PInf)"
| "fdiv (Fin a) PInf = Fin 0"
| "fdiv (Fin a) NInf = Fin 0"
| "fdiv (Fin a) (Fin b) =
     (if b = 0 then (if a = 0 then NaN else if 0 < a then PInf else NInf)
      else round32 (a / b))"

text \<open>The comparisons \<open><\<close> and \<open>>=\<close> of C: both are false when an operand is a NaN.\<close>

fun flt :: "float32 \<Rightarrow> float32 \<Rightarrow> bool" where
  "flt NaN y = False"
| "flt x NaN = False"
| "flt PInf y = False"
| "flt NInf NInf = False"
| "flt NInf y = True"
| "flt (Fin a) PInf = True"
| "flt (Fin a) NInf = False"
| "flt (Fin a) (Fin b) = (a < b)"

fun fge :: "float32 \<Rightarrow> float32 \<Rightarrow> bool" where
  "fge NaN y = False"
| "fge x NaN = False"
| "fge x y = (\<not> flt x y)"

text \<open>A decimal literal with the suffix \<open>f\<close> is the nearest binary32 value.\<close>

definition lit :: "rat \<Rightarrow> float32" where
  "lit r = round32 r"

section \<open>Configuration\<close>

type_synonym uint8_t = "8 word"
type_synonym int16_t = "16 word"

definition MLX90393_REG_SM :: uint8_t where "MLX90393_REG_SM = 0x30"
definition MLX90393_REG_RM :: uint8_t where "MLX90393_REG_RM = 0x40"
definition MLX90393_REG_EX :: uint8_t where "MLX90393_REG_EX = 0x80"
definition MLX90393_REG_RT :: uint8_t where "MLX90393_REG_RT = 0xF0"
definition MLX90393_AXIS_ALL :: uint8_t where "MLX90393_AXIS_ALL = 0x0E"

definition CALIBRATION_SLOPE :: float32 where
  "CALIBRATION_SLOPE = lit (5194029384743018 / 100000000000000)"
definition CALIBRATION_INTERCEPT :: float32 where
  "CALIBRATION_INTERCEPT = lit (- (6929925307532482 / 10000000000000))"
definition Z_OFFSET_MT :: float32 where
  "Z_OFFSET_MT = lit 20"
definition FILTER_VAL :: float32 where
  "FILTER_VAL = lit (4 / 10)"

datatype mlx90393_gain_t =
  MLX90393_GAIN_5X | MLX90393_GAIN_4X | MLX90393_GAIN_3X | MLX90393_GAIN_2_5X
| MLX90393_GAIN_2X | MLX90393_GAIN_1_67X | MLX90393_GAIN_1_33X | MLX90393_GAIN_1X

fun gain_index :: "mlx90393_gain_t \<Rightarrow> nat" where
  "gain_index MLX90393_GAIN_5X = 0"
| "gain_index MLX90393_GAIN_4X = 1"
| "gain_index MLX90393_GAIN_3X = 2"
| "gain_index MLX90393_GAIN_2_5X = 3"
| "gain_index MLX90393_GAIN_2X = 4"
| "gain_index MLX90393_GAIN_1_67X = 5"
| "gain_index MLX90393_GAIN_1_33X = 6"
| "gain_index MLX90393_GAIN_1X = 7"

datatype mlx90393_resolution_t =
  MLX90393_RES_16 | MLX90393_RES_17 | MLX90393_RES_18 | MLX90393_RES_19

fun res_index :: "mlx90393_resolution_t \<Rightarrow> nat" where
  "res_index MLX90393_RES_16 = 0"
| "res_index MLX90393_RES_17 = 1"
| "res_index MLX90393_RES_18 = 2"
| "res_index MLX90393_RES_19 = 3"

text \<open>
  The table \<open>mlx90393_lsb_lookup[2][8][4][2]\<close>, indexed \<open>[HALLCONF][GAIN][RES][XY/Z]\<close>.
  The entries are written in thousandths, as the decimal literals of the source have
  three decimals; \<open>mlx90393_lsb_lookup\<close> gives the \<open>float\<close> of the literal.
\<close>

definition lsb_thousandths :: "int list list list list" where
  "lsb_thousandths =
   [ [ [[751, 1210], [1502, 2420], [3004, 4840], [6009, 9680]],
       [[601, 968], [1202, 1936], [2403, 3872], [4840, 7744]],
       [[451, 726], [901, 1452], [1803, 2904], [3605, 5808]],
       [[376, 605], [751, 1210], [1502, 2420], [3004, 4840]],
       [[300, 484], [601, 968], [1202, 1936], [2403, 3872]],
       [[250, 403], [501, 807], [1001, 1613], [2003, 3227]],
       [[200, 323], [401, 645], [801, 1291], [1602, 2581]],
       [[150, 242], [300, 484], [601, 968], [1202, 1936]] ],
     [ [[787, 1267], [1573, 2534], [3146, 5068], [6292, 10137]],
       [[629, 1014], [1258, 2027], [2517, 4055], [5034, 8109]],
       [[472, 760], [944, 1521], [1888, 3041], [3775, 6082]],
       [[393, 634], [787, 1267], [1573, 2534], [3146, 5068]],
       [[315, 507], [629, 1014], [1258, 2027], [2517, 4055]],
       [[262, 422], [524, 845], [1049, 1689], [2097, 3379]],
       [[210, 338], [419, 676], [839, 1352], [1678, 2703]],
       [[157, 253], [315, 507], [629, 1014], [1258, 2027]] ] ]"

definition mlx90393_lsb_lookup :: "nat \<Rightarrow> nat \<Rightarrow> nat \<Rightarrow> nat \<Rightarrow> float32" where
  "mlx90393_lsb_lookup h g r a = lit (of_int (lsb_thousandths ! h ! g ! r ! a) / 1000)"

section \<open>Program state and the bus\<close>

text \<open>
  One exchange with the sensor, as the two SDK calls of \<open>mlx_transceive\<close> see it: the
  return value of \<open>i2c_write_blocking\<close>, the return value of \<open>i2c_read_blocking\<close> and the
  bytes the read puts into the buffer (byte 0 is the status byte).
\<close>

record i2c_xfer =
  wr_ret :: int
  rd_ret :: int
  rd_buf :: "nat \<Rightarrow> uint8_t"

text \<open>The lines the main loop prints.\<close>

datatype out_line = Z_axis float32 | Z_error | Not_initialized

text \<open>
  The global variables of the program, together with the environment: \<open>bus\<close> gives the
  outcome of the k-th exchange, \<open>bus_calls\<close> counts the calls of \<open>mlx_transceive\<close>,
  \<open>tx_log\<close> keeps the command bytes written and \<open>console\<close> the lines printed.
  Delays (\<open>sleep_ms\<close>) are not part of the state.
\<close>

record machine =
  mlx_gain :: mlx90393_gain_t
  mlx_res_z :: mlx90393_resolution_t
  smoothed_z :: float32
  first_mag_reading :: bool
  mlx_initialized :: bool
  bus :: "nat \<Rightarrow> i2c_xfer"
  bus_calls :: nat
  tx_log :: "uint8_t list"
  console :: "out_line list"

definition startup :: "(nat \<Rightarrow> i2c_xfer) \<Rightarrow> machine" where
  "startup b = \<lparr> mlx_gain = MLX90393_GAIN_1X, mlx_res_z = MLX90393_RES_16,
     smoothed_z = lit 0, first_mag_reading = True, mlx_initialized = False,
     bus = b, bus_calls = 0, tx_log = [], console = [] \<rparr>"

section \<open>Sensor functions\<close>

text \<open>
  \<open>mlx_transceive\<close>: \<open>None\<close> is the return value \<open>false\<close>; \<open>Some buf\<close> is \<open>true\<close> with
  the bytes stored through \<open>rx_data\<close> (\<open>rx_len + 1\<close> of them, or the status byte alone when
  \<open>rx_len\<close> is 0).
\<close>

definition mlx_transceive :: "uint8_t \<Rightarrow> nat \<Rightarrow> machine \<Rightarrow> uint8_t list option \<times> machine" where
  "mlx_transceive cmd rx_len s =
     (let x = bus s (bus_calls s);
          s' = s\<lparr>bus_calls := Suc (bus_calls s), tx_log := tx_log s @ [cmd]\<rparr>
      in if wr_ret x < 0 then (None, s')
         else if 0 < rx_len then
           (if 0 < rd_ret x then (Some (map (rd_buf x) [0..<rx_len + 1]), s') else (None, s'))
         else
           (if 0 < rd_ret x then (Some [rd_buf x 0], s') else (None, s')))"

definition mlx_exit_mode :: "machine \<Rightarrow> bool \<times> machine" where
  "mlx_exit_mode s =
     (case mlx_transceive MLX90393_REG_EX 0 s of
        (None, s') \<Rightarrow> (False, s')
      | (Some status, s') \<Rightarrow> (drop_bit 2 (status ! 0) = 0x00, s'))"

definition mlx_reset :: "machine \<Rightarrow> bool \<times> machine" where
  "mlx_reset s =
     (case mlx_transceive MLX90393_REG_RT 0 s of
        (None, s') \<Rightarrow> (False, s')
      | (Some status, s') \<Rightarrow> (drop_bit 2 (status ! 0) = 0x01, s'))"

definition mlx_start_measurement :: "machine \<Rightarrow> bool \<times> machine" where
  "mlx_start_measurement s =
     (case mlx_transceive (MLX90393_REG_SM OR MLX90393_AXIS_ALL) 0 s of
        (None, s') \<Rightarrow> (False, s')
      | (Some status, s') \<Rightarrow>
          (let stat = drop_bit 2 (status ! 0) in (stat = 0x00 \<or> stat = 0x08, s')))"

text \<open>
  The conversions of the Z sample. \<open>(data[5] << 8) | data[6]\<close> is computed in \<open>int\<close>
  and stored into an \<open>int16_t\<close>, which keeps the low 16 bits; \<open>zi -= c\<close> computes
  \<open>zi - c\<close> in \<open>int\<close> and stores it back the same way.
\<close>

definition z_raw :: "uint8_t \<Rightarrow> uint8_t \<Rightarrow> int16_t" where
  "z_raw hi lo = ucast (push_bit 8 (ucast hi :: 32 word) OR (ucast lo :: 32 word))"

definition int16_sub :: "int16_t \<Rightarrow> int \<Rightarrow> int16_t" where
  "int16_sub zi c = word_of_int (sint zi - c)"

definition float_of_int16 :: "int16_t \<Rightarrow> float32" where
  "float_of_int16 zi = Fin (of_int (sint zi))"

definition mlx_read_measurement :: "machine \<Rightarrow> float32 option \<times> machine" where
  "mlx_read_measurement s =
     (case mlx_transceive (MLX90393_REG_RM OR MLX90393_AXIS_ALL) 6 s of
        (None, s') \<Rightarrow> (None, s')
      | (Some data, s') \<Rightarrow>
          if drop_bit 2 (data ! 0) = 0x00 then
            (let zi = z_raw (data ! 5) (data ! 6);
                 zi = (if mlx_res_z s' = MLX90393_RES_18 then int16_sub zi 0x8000 else zi);
                 zi = (if mlx_res_z s' = MLX90393_RES_19 then int16_sub zi 0x4000 else zi);
                 z_uT = fmul (float_of_int16 zi)
                          (mlx90393_lsb_lookup 0 (gain_index (mlx_gain s')) (res_index (mlx_res_z s')) 1);
                 z_mT = fadd (fdiv z_uT (lit 1000)) Z_OFFSET_MT
             in (Some (if flt z_mT (lit 0) then lit 0 else z_mT), s'))
          else (None, s'))"

definition mlx_read_data :: "machine \<Rightarrow> float32 option \<times> machine" where
  "mlx_read_data s =
     (case mlx_start_measurement s of
        (False, s') \<Rightarrow> (None, s')
      | (True, s') \<Rightarrow> mlx_read_measurement s')"

definition mlx_init :: "machine \<Rightarrow> bool \<times> machine" where
  "mlx_init s =
     (case mlx_exit_mode s of
        (False, s1) \<Rightarrow> (False, s1)
      | (True, s1) \<Rightarrow>
          (case mlx_reset s1 of
             (False, s2) \<Rightarrow> (False, s2)
           | (True, s2) \<Rightarrow> (True, s2\<lparr>mlx_initialized := True\<rparr>)))"

definition smooth :: "float32 \<Rightarrow> float32 \<Rightarrow> float32 \<Rightarrow> float32" where
  "smooth data filter_val smoothed_val =
     fadd (fmul data (fsub (lit 1) filter_val)) (fmul smoothed_val filter_val)"

definition calculate_force :: "float32 \<Rightarrow> float32" where
  "calculate_force z_axis_mT =
     (let force = fadd (fmul CALIBRATION_SLOPE z_axis_mT) CALIBRATION_INTERCEPT
      in if flt force (lit 0) then lit 0 else force)"

section \<open>The main loop\<close>

text \<open>
  What the loop does with a reading \<open>z\<close> that \<open>mlx_read_data\<close> delivered: the first one
  initialises the filter, the later ones go through \<open>smooth\<close>; the filtered value is printed.
\<close>

definition accept_reading :: "float32 \<Rightarrow> machine \<Rightarrow> machine" where
  "accept_reading z s =
     (let s' = (if first_mag_reading s
                then s\<lparr>smoothed_z := z, first_mag_reading := False\<rparr>
                else s\<lparr>smoothed_z := smooth z FILTER_VAL (smoothed_z s)\<rparr>)
      in s'\<lparr>console := console s' @ [Z_axis (smoothed_z s')]\<rparr>)"

text \<open>One iteration of \<open>while (true)\<close>; the LED and the delay are left out.\<close>

definition loop_body :: "machine \<Rightarrow> machine" where
  "loop_body s =
     (if mlx_initialized s then
        (case mlx_read_data s of
           (Some z, s') \<Rightarrow> accept_reading z s'
         | (None, s') \<Rightarrow> s'\<lparr>console := console s' @ [Z_error]\<rparr>)
      else s\<lparr>console := console s @ [Not_initialized]\<rparr>)"

text \<open>\<open>main\<close> up to the loop: the outcome of \<open>mlx_init\<close> is only printed.\<close>

definition main_setup :: "(nat \<Rightarrow> i2c_xfer) \<Rightarrow> machine" where
  "main_setup b = snd (mlx_init (startup b))"

section \<open>The wording of the specification\<close>

text \<open>
  None of the definitions of this section is used by the functions above. They name what
  the statements below talk about, and they write the decoder and the smoother down as the
  specification words them; the theorems compare these with the program.
\<close>

text \<open>
  The exchange the next call of \<open>mlx_transceive\<close> performs, and whether the bus delivers:
  the write does not return a negative number and the read returns a positive one.
\<close>

definition next_xfer :: "machine \<Rightarrow> i2c_xfer" where
  "next_xfer s = bus s (bus_calls s)"

definition xfer_ok :: "i2c_xfer \<Rightarrow> bool" where
  "xfer_ok x = (0 \<le> wr_ret x \<and> 0 < rd_ret x)"

text \<open>The state after one exchange that wrote the command byte \<open>cmd\<close>.\<close>

definition after_xfer :: "uint8_t \<Rightarrow> machine \<Rightarrow> machine" where
  "after_xfer cmd s = s\<lparr>bus_calls := Suc (bus_calls s), tx_log := tx_log s @ [cmd]\<rparr>"

text \<open>The status code: the status byte shifted right by two bits.\<close>

definition status_code :: "uint8_t \<Rightarrow> nat" where
  "status_code b = unat b div 4"

text \<open>The big-endian two's-complement value of two bytes, and the reduction of an integer
  to the range of a signed 16-bit variable.\<close>

definition be_signed16 :: "uint8_t \<Rightarrow> uint8_t \<Rightarrow> int" where
  "be_signed16 hi lo = (let u = 256 * uint hi + uint lo in if u < 32768 then u else u - 65536)"

definition wrap16 :: "int \<Rightarrow> int" where
  "wrap16 n = (n + 32768) mod 65536 - 32768"

fun resolution_offset :: "mlx90393_resolution_t \<Rightarrow> int" where
  "resolution_offset MLX90393_RES_16 = 0"
| "resolution_offset MLX90393_RES_17 = 0"
| "resolution_offset MLX90393_RES_18 = 0x8000"
| "resolution_offset MLX90393_RES_19 = 0x4000"

text \<open>\<open>scale(hallconf, gain, resolution, axis)\<close>, with axis 0 for XY and 1 for Z.\<close>

definition scale :: "nat \<Rightarrow> mlx90393_gain_t \<Rightarrow> mlx90393_resolution_t \<Rightarrow> nat \<Rightarrow> float32" where
  "scale h g r axis = mlx90393_lsb_lookup h (gain_index g) (res_index r) axis"

text \<open>Steps 3 and 4 of the decoder: count times factor, over 1000, plus the Z offset,
  floored at zero.\<close>

definition field_of_count :: "float32 \<Rightarrow> int \<Rightarrow> float32" where
  "field_of_count k zi =
     (let mT = fadd (fdiv (fmul (Fin (of_int zi)) k) (Fin 1000)) (Fin 20)
      in if flt mT (Fin 0) then Fin 0 else mT)"

text \<open>The decoder with the correction of step 2 taken as a subtraction of integers.\<close>

definition MeasurementDecoder_stated ::
  "nat \<Rightarrow> mlx90393_gain_t \<Rightarrow> mlx90393_resolution_t \<Rightarrow> uint8_t \<Rightarrow> uint8_t \<Rightarrow> float32" where
  "MeasurementDecoder_stated h g r hi lo =
     field_of_count (scale h g r 1) (be_signed16 hi lo - resolution_offset r)"

text \<open>The decoder with the correction of step 2 kept in a signed 16-bit variable.\<close>

definition MeasurementDecoder_wrapping ::
  "nat \<Rightarrow> mlx90393_gain_t \<Rightarrow> mlx90393_resolution_t \<Rightarrow> uint8_t \<Rightarrow> uint8_t \<Rightarrow> float32" where
  "MeasurementDecoder_wrapping h g r hi lo =
     field_of_count (scale h g r 1) (wrap16 (be_signed16 hi lo - resolution_offset r))"

text \<open>Two decoded values differ by the offset of \<open>0x8000\<close> counts scaled by the factor
  \<open>k\<close> (in either direction).\<close>

definition offset_relation :: "float32 \<Rightarrow> float32 \<Rightarrow> float32 \<Rightarrow> bool" where
  "offset_relation d16 d18 k =
     (let off = fdiv (fmul (Fin 0x8000) k) (Fin 1000)
      in fsub d16 d18 = off \<or> fsub d18 d16 = off)"

text \<open>The FilterState and \<open>Smoother.update\<close>, which returns the value and the new state.\<close>

record filter_state =
  smoothed_value :: float32
  initialized :: bool

definition Smoother_update :: "float32 \<Rightarrow> float32 \<Rightarrow> filter_state \<Rightarrow> float32 \<times> filter_state" where
  "Smoother_update raw coefficient st =
     (if \<not> initialized st then (raw, \<lparr>smoothed_value = raw, initialized = True\<rparr>)
      else (let v = fadd (fmul raw (fsub (Fin 1) coefficient)) (fmul (smoothed_value st) coefficient)
            in (v, \<lparr>smoothed_value = v, initialized = True\<rparr>)))"

definition filter_of :: "machine \<Rightarrow> filter_state" where
  "filter_of s = \<lparr>smoothed_value = smoothed_z s, initialized = (\<not> first_mag_reading s)\<rparr>"

section \<open>Test inputs\<close>

text \<open>A bus exchange that succeeds and delivers the given bytes (zeros after them).\<close>

definition delivers :: "uint8_t list \<Rightarrow> i2c_xfer" where
  "delivers bytes = \<lparr>wr_ret = 1, rd_ret = int (length bytes),
     rd_buf = (\<lambda>i. if i < length bytes then bytes ! i else 0)\<rparr>"

text \<open>An exchange in which the sensor does not acknowledge the write.\<close>

definition nack :: i2c_xfer where
  "nack = \<lparr>wr_ret = - 1, rd_ret = - 1, rd_buf = (\<lambda>i. 0)\<rparr>"

text \<open>A bus that answers the exchanges number 0, 1, 2, ... with the listed outcomes and
  does not answer afterwards.\<close>

definition scripted :: "i2c_xfer list \<Rightarrow> nat \<Rightarrow> i2c_xfer" where
  "scripted xs k = (if k < length xs then xs ! k else nack)"

text \<open>An initialised driver with the given settings in front of a scripted bus.\<close>

definition ready :: "mlx90393_gain_t \<Rightarrow> mlx90393_resolution_t \<Rightarrow> i2c_xfer list \<Rightarrow> machine" where
  "ready g r xs = (startup (scripted xs))\<lparr>mlx_gain := g, mlx_res_z := r, mlx_initialized := True\<rparr>"

text \<open>The exchange of a successful \<open>READ_MEASUREMENT\<close> with the Z bytes \<open>hi\<close>, \<open>lo\<close>.\<close>

definition z_sample :: "uint8_t \<Rightarrow> uint8_t \<Rightarrow> i2c_xfer" where
  "z_sample hi lo = delivers [0, 0, 0, 0, 0, hi, lo]"

section \<open>Auxiliary facts\<close>

subsection \<open>Rounding\<close>

text \<open>
  Two facts about \<open>round32\<close>: the result is within half a spacing of the exact value,
  which gives the usual relative error bound, and a finite result is a binary32 number.
\<close>

lemma rne_half: "\<bar>of_int (rne t) - t\<bar> \<le> 1 / 2"
proof -
  have a: "of_int \<lfloor>t\<rfloor> \<le> t" "t < of_int \<lfloor>t\<rfloor> + 1"
    by linarith+
  show ?thesis
    using a by (auto simp: rne_def Let_def abs_le_iff)
qed

lemma norm_up_bounds:
  "1 \<le> a \<Longrightarrow> e \<le> norm_up n a e \<and> norm_up n a e \<le> e + int n \<and> 2 powi (norm_up n a e - e) \<le> a"
proof (induction n arbitrary: a e)
  case 0
  then show ?case by simp
next
  case (Suc n)
  show ?case
  proof (cases "2 \<le> a")
    case True
    define r where "r = norm_up n (a / 2) (e + 1)"
    have ih: "e + 1 \<le> r" "r \<le> e + 1 + int n" "2 powi (r - (e + 1)) \<le> a / 2"
      using Suc.IH [of "a / 2" "e + 1"] True by (simp_all add: r_def)
    have "(2::rat) powi (r - e) = 2 powi (r - e - 1) * 2"
      by (simp add: power_int_minus_mult)
    also have "r - e - 1 = r - (e + 1)" by simp
    finally have "(2::rat) powi (r - e) \<le> a"
      using ih(3) by simp
    then show ?thesis
      using True ih by (simp add: r_def [symmetric])
  next
    case False
    then show ?thesis using Suc.prems by simp
  qed
qed

lemma norm_down_bounds:
  "e - int n \<le> norm_down n a e \<and> norm_down n a e \<le> e \<and>
   (2 powi (norm_down n a e - e) \<le> a \<or> norm_down n a e = e - int n)"
proof (induction n arbitrary: a e)
  case 0
  then show ?case by simp
next
  case (Suc n)
  show ?case
  proof (cases "a < 1")
    case True
    define r where "r = norm_down n (a * 2) (e - 1)"
    have ih: "e - 1 - int n \<le> r" "r \<le> e - 1"
      "2 powi (r - (e - 1)) \<le> a * 2 \<or> r = e - 1 - int n"
      using Suc.IH [of "e - 1" "a * 2"] by (simp_all add: r_def)
    have "(2::rat) powi (r - e + 1) = 2 powi (r - e) * 2"
      by (simp add: power_int_add_1)
    moreover have "r - e + 1 = r - (e - 1)" by simp
    ultimately have "2 powi (r - (e - 1)) = (2::rat) powi (r - e) * 2" by simp
    then have "2 powi (r - e) \<le> a \<or> r = e - 1 - int n"
      using ih(3) by auto
    then show ?thesis
      using True ih(1,2) by (auto simp: r_def [symmetric])
  next
    case False
    then show ?thesis by simp
  qed
qed

lemma expo_bounds:
  "- 126 \<le> expo a \<and> expo a \<le> 127 \<and> (2 powi expo a \<le> a \<or> expo a = - 126)"
proof (cases "1 \<le> a")
  case True
  then show ?thesis
    using norm_up_bounds [of a 0 127] by (simp add: expo_def)
next
  case False
  then show ?thesis
    using norm_down_bounds [of 0 126 a] by (simp add: expo_def)
qed

lemma round32_err:
  assumes "\<bar>r\<bar> \<le> 2 ^ 126"
  shows "\<exists>v. round32 r = Fin v \<and> \<bar>v - r\<bar> \<le> \<bar>r\<bar> / 2 ^ 24 + 1 / 2 ^ 150"
proof -
  define e where "e = expo \<bar>r\<bar>"
  define q where "q = (2::rat) powi (e - 23)"
  define v where "v = of_int (rne (r / q)) * q"
  have eb: "- 126 \<le> e" "e \<le> 127" "2 powi e \<le> \<bar>r\<bar> \<or> e = - 126"
    using expo_bounds [of "\<bar>r\<bar>"] by (simp_all add: e_def)
  have qpos: "0 < q" by (simp add: q_def)
  have "\<bar>of_int (rne (r / q)) - r / q\<bar> \<le> 1 / 2" by (rule rne_half)
  then have "\<bar>of_int (rne (r / q)) - r / q\<bar> * q \<le> 1 / 2 * q"
    using qpos by (intro mult_right_mono) simp_all
  moreover have e1: "v - r = (of_int (rne (r / q)) - r / q) * q"
    using qpos by (simp add: v_def left_diff_distrib)
  have "\<bar>v - r\<bar> = \<bar>of_int (rne (r / q)) - r / q\<bar> * q"
    unfolding e1 abs_mult using qpos by simp
  ultimately have d: "\<bar>v - r\<bar> \<le> q / 2" by simp
  have qe: "q = 2 powi e / 2 ^ 23"
    by (simp add: q_def power_int_diff)
  have h: "q / 2 \<le> \<bar>r\<bar> / 2 ^ 24 + 1 / 2 ^ 150"
  proof (cases "2 powi e \<le> \<bar>r\<bar>")
    case True
    then show ?thesis by (simp add: qe)
  next
    case False
    then have "e = - 126" using eb(3) by simp
    then show ?thesis by (simp add: qe)
  qed
  have "q \<le> 2 powi 104"
    unfolding q_def using eb(2) by (intro power_int_increasing) simp_all
  then have ql: "q \<le> 2 ^ 104" by simp
  have t: "\<bar>v\<bar> \<le> \<bar>r\<bar> + \<bar>v - r\<bar>" by linarith
  have p: "(2::rat) ^ 126 + 2 ^ 104 / 2 < 2 ^ 128" by simp
  have "\<bar>v\<bar> < 2 ^ 128"
    using t d assms ql p by linarith
  then have "round32 r = Fin v"
    by (simp add: round32_def Let_def e_def [symmetric] q_def [symmetric] v_def [symmetric])
  then show ?thesis
    using d h by auto
qed

lemma norm_up_upper:
  "norm_up n a e = e + int n \<or> a < 2 * 2 powi (norm_up n a e - e)"
proof (induction n arbitrary: a e)
  case 0
  then show ?case by simp
next
  case (Suc n)
  show ?case
  proof (cases "2 \<le> a")
    case True
    define r where "r = norm_up n (a / 2) (e + 1)"
    have ih: "r = e + 1 + int n \<or> a / 2 < 2 * 2 powi (r - (e + 1))"
      using Suc.IH [of "a / 2" "e + 1"] by (simp add: r_def)
    have "(2::rat) powi (r - e) = 2 powi (r - e - 1) * 2"
      by (simp add: power_int_minus_mult)
    also have "r - e - 1 = r - (e + 1)" by simp
    finally have "r = e + 1 + int n \<or> a < 2 * 2 powi (r - e)"
      using ih by auto
    then show ?thesis
      using True by (auto simp: r_def [symmetric])
  next
    case False
    then show ?thesis by simp
  qed
qed

lemma norm_down_upper:
  "a < 2 \<Longrightarrow> a < 2 * 2 powi (norm_down n a e - e)"
proof (induction n arbitrary: a e)
  case 0
  then show ?case by simp
next
  case (Suc n)
  show ?case
  proof (cases "a < 1")
    case True
    define r where "r = norm_down n (a * 2) (e - 1)"
    have ih: "a * 2 < 2 * 2 powi (r - (e - 1))"
      using Suc.IH [of "a * 2" "e - 1"] True by (simp add: r_def)
    have "(2::rat) powi (r - e + 1) = 2 powi (r - e) * 2"
      by (simp add: power_int_add_1)
    moreover have "r - e + 1 = r - (e - 1)" by simp
    ultimately have "2 powi (r - (e - 1)) = (2::rat) powi (r - e) * 2" by simp
    then have "a < 2 * 2 powi (r - e)"
      using ih by simp
    then show ?thesis
      using True by (simp add: r_def [symmetric])
  next
    case False
    then show ?thesis using Suc.prems by simp
  qed
qed

lemma expo_upper: "expo a = 127 \<or> a < 2 * 2 powi expo a"
proof (cases "1 \<le> a")
  case True
  then show ?thesis
    using norm_up_upper [of 127 a 0] by (simp add: expo_def)
next
  case False
  then show ?thesis
    using norm_down_upper [of a 126 0] by (simp add: expo_def)
qed

text \<open>A finite result of the rounding is a binary32 number: an integer of magnitude at most
  \<open>2 ^ 24\<close> times a power of two between \<open>2 powi - 149\<close> and \<open>2 powi 104\<close>.\<close>

lemma round32_binary32:
  assumes "round32 r = Fin v"
  shows "\<exists>n e. v = of_int n * 2 powi (e - 23) \<and> \<bar>n\<bar> \<le> 2 ^ 24 \<and> - 126 \<le> e \<and> e \<le> 127"
proof -
  define e where "e = expo \<bar>r\<bar>"
  define q where "q = (2::rat) powi (e - 23)"
  define n where "n = rne (r / q)"
  have eb: "- 126 \<le> e" "e \<le> 127"
    using expo_bounds [of "\<bar>r\<bar>"] by (simp_all add: e_def)
  have qpos: "0 < q" by (simp add: q_def)
  have v: "v = of_int n * q" and fin: "\<bar>of_int n * q\<bar> < 2 ^ 128"
    using assms
    by (auto simp: round32_def Let_def e_def [symmetric] q_def [symmetric] n_def [symmetric]
        split: if_splits)
  have "\<bar>rat_of_int n\<bar> < 2 ^ 24 + 1"
  proof (cases "e = 127")
    case True
    then have "q = 2 ^ 104" by (simp add: q_def)
    then have "\<bar>rat_of_int n\<bar> * 2 ^ 104 < 2 ^ 128"
      using fin by (simp add: abs_mult)
    then show ?thesis by simp
  next
    case False
    then have "\<bar>r\<bar> < 2 * 2 powi e"
      using expo_upper [of "\<bar>r\<bar>"] by (simp add: e_def)
    also have "2 * (2::rat) powi e = 2 ^ 24 * q"
      by (simp add: q_def power_int_diff)
    finally have "\<bar>r\<bar> / q < 2 ^ 24"
      using qpos by (simp add: pos_divide_less_eq)
    then have a: "\<bar>r / q\<bar> < 2 ^ 24"
      using qpos by simp
    have "\<bar>of_int (rne (r / q)) - r / q\<bar> \<le> 1 / 2" by (rule rne_half)
    then show ?thesis
      using a unfolding n_def by linarith
  qed
  then have "\<bar>n\<bar> < 2 ^ 24 + 1"
    by (metis (mono_tags) of_int_abs of_int_less_iff of_int_numeral of_int_power of_int_add of_int_1)
  then have "\<bar>n\<bar> \<le> 2 ^ 24" by simp
  then show ?thesis
    using v eb unfolding q_def by blast
qed

subsection \<open>Literals, bytes and counts\<close>

lemma lit_0: "lit 0 = Fin 0" by code_simp
lemma lit_1: "lit 1 = Fin 1" by code_simp
lemma lit_20: "lit 20 = Fin 20" by code_simp
lemma lit_1000: "lit 1000 = Fin 1000" by code_simp

lemma or_is_add: "push_bit 8 (ucast (hi :: 8 word) :: 32 word) OR ucast (lo :: 8 word) = push_bit 8 (ucast hi) + ucast lo"
  by (rule disjunctive_add [symmetric]) (auto simp: bit_simps dest: bit_imp_le_length)

lemma uint_z_raw: "uint (z_raw hi lo) = 256 * uint hi + uint lo"
proof -
  have hb: "uint hi < 256" "uint lo < 256" "0 \<le> uint hi" "0 \<le> uint lo"
    using uint_lt2p [of hi] uint_lt2p [of lo] by simp_all
  have "uint (push_bit 8 (ucast hi :: 32 word) + ucast lo) = 256 * uint hi + uint lo"
    using hb by (simp add: uint_word_ariths unsigned_push_bit_eq unsigned_ucast_eq take_bit_eq_mod push_bit_eq_mult)
  then show ?thesis
    using hb by (simp add: z_raw_def or_is_add unsigned_ucast_eq take_bit_eq_mod)
qed

lemma sint16: "sint (w :: 16 word) = (if uint w < 32768 then uint w else uint w - 65536)"
proof -
  define u where "u = uint w"
  have b: "0 \<le> u" "u < 65536"
    using uint_lt2p [of w] by (simp_all add: u_def)
  have "sint w = (u + 32768) mod 65536 - 32768"
    by (simp add: u_def sint_uint signed_take_bit_eq_take_bit_shift take_bit_eq_mod)
  also have "\<dots> = (if u < 32768 then u else u - 65536)"
  proof (cases "u < 32768")
    case True
    then show ?thesis using b by simp
  next
    case False
    have e: "u + 32768 = (u - 32768) + 65536" by arith
    have "(u + 32768) mod 65536 = (u - 32768) mod 65536"
      by (subst e) (rule mod_add_self2)
    also have "\<dots> = u - 32768" using b False by simp
    finally show ?thesis using False by simp
  qed
  finally show ?thesis by (simp add: u_def)
qed

lemma sint_z_raw: "sint (z_raw hi lo) = be_signed16 hi lo"
  by (simp add: sint16 uint_z_raw be_signed16_def Let_def)

lemma sint_int16_sub: "sint (int16_sub zi c) = wrap16 (sint zi - c)"
  unfolding int16_sub_def wrap16_def sint_sbintrunc'
  by (simp add: signed_take_bit_eq_take_bit_shift take_bit_eq_mod)

lemma be_signed16_range: "- 32768 \<le> be_signed16 hi lo \<and> be_signed16 hi lo < 32768"
  using sint_range_size [of "z_raw hi lo"] by (simp add: sint_z_raw word_size)

lemma wrap16_id: "- 32768 \<le> n \<Longrightarrow> n < 32768 \<Longrightarrow> wrap16 n = n"
  by (simp add: wrap16_def)

lemma code_shift: "(drop_bit 2 (b :: 8 word) = w) \<longleftrightarrow> status_code b = unat w"
  by (simp add: status_code_def word_unat_eq_iff unat_drop_bit_eq drop_bit_eq_div unat_div)

lemma mlx_transceive_eq:
  "mlx_transceive cmd n s =
     (if xfer_ok (next_xfer s)
      then Some (if 0 < n then map (rd_buf (next_xfer s)) [0..<n + 1] else [rd_buf (next_xfer s) 0])
      else None, after_xfer cmd s)"
  by (auto simp: mlx_transceive_def next_xfer_def xfer_ok_def after_xfer_def Let_def)

lemma mlx_exit_mode_eq:
  "mlx_exit_mode s =
     (xfer_ok (next_xfer s) \<and> status_code (rd_buf (next_xfer s) 0) = 0, after_xfer MLX90393_REG_EX s)"
  by (simp add: mlx_exit_mode_def mlx_transceive_eq code_shift)

lemma mlx_reset_eq:
  "mlx_reset s =
     (xfer_ok (next_xfer s) \<and> status_code (rd_buf (next_xfer s) 0) = 1, after_xfer MLX90393_REG_RT s)"
  by (simp add: mlx_reset_def mlx_transceive_eq code_shift)

lemma mlx_start_measurement_eq:
  "mlx_start_measurement s =
     (xfer_ok (next_xfer s) \<and>
        (status_code (rd_buf (next_xfer s) 0) = 0 \<or> status_code (rd_buf (next_xfer s) 0) = 8),
      after_xfer (MLX90393_REG_SM OR MLX90393_AXIS_ALL) s)"
  by (simp add: mlx_start_measurement_def mlx_transceive_eq code_shift Let_def)

lemma count_eq:
  "sint (let zi = z_raw hi lo;
             zi = (if r = MLX90393_RES_18 then int16_sub zi 0x8000 else zi);
             zi = (if r = MLX90393_RES_19 then int16_sub zi 0x4000 else zi)
         in zi) = wrap16 (be_signed16 hi lo - resolution_offset r)"
  using be_signed16_range [of hi lo]
  by (cases r) (simp_all add: sint_int16_sub sint_z_raw wrap16_id)

lemma float_of_int16_z_raw: "float_of_int16 (z_raw hi lo) = Fin (of_int (be_signed16 hi lo))"
  unfolding float_of_int16_def sint_z_raw ..

lemma float_of_int16_sub:
  "float_of_int16 (int16_sub (z_raw hi lo) c) = Fin (of_int (wrap16 (be_signed16 hi lo - c)))"
  unfolding float_of_int16_def sint_int16_sub sint_z_raw ..

lemma mlx_read_measurement_eq:
  "mlx_read_measurement s =
     (if xfer_ok (next_xfer s) \<and> status_code (rd_buf (next_xfer s) 0) = 0
      then Some (MeasurementDecoder_wrapping 0 (mlx_gain s) (mlx_res_z s)
                   (rd_buf (next_xfer s) 5) (rd_buf (next_xfer s) 6))
      else None, after_xfer (MLX90393_REG_RM OR MLX90393_AXIS_ALL) s)"
proof -
  have r: "- 32768 \<le> be_signed16 (rd_buf (next_xfer s) 5) (rd_buf (next_xfer s) 6)"
    "be_signed16 (rd_buf (next_xfer s) 5) (rd_buf (next_xfer s) 6) < 32768"
    using be_signed16_range by simp_all
  show ?thesis
    using r
    by (cases "mlx_res_z s")
      (simp_all add: mlx_read_measurement_def mlx_transceive_eq code_shift Let_def
        MeasurementDecoder_wrapping_def field_of_count_def scale_def
        lit_0 lit_1000 lit_20 Z_OFFSET_MT_def after_xfer_def
        float_of_int16_z_raw float_of_int16_sub wrap16_id)
qed

subsection \<open>The sensor functions in terms of the bus\<close>

lemma mlx_read_data_eq:
  "mlx_read_data s =
     (if fst (mlx_start_measurement s) then mlx_read_measurement (snd (mlx_start_measurement s))
      else (None, snd (mlx_start_measurement s)))"
  by (simp add: mlx_read_data_def split: prod.splits bool.splits)

lemma after_xfer_fields [simp]:
  "mlx_gain (after_xfer c s) = mlx_gain s"
  "mlx_res_z (after_xfer c s) = mlx_res_z s"
  "smoothed_z (after_xfer c s) = smoothed_z s"
  "first_mag_reading (after_xfer c s) = first_mag_reading s"
  "mlx_initialized (after_xfer c s) = mlx_initialized s"
  "bus (after_xfer c s) = bus s"
  "bus_calls (after_xfer c s) = Suc (bus_calls s)"
  "tx_log (after_xfer c s) = tx_log s @ [c]"
  "console (after_xfer c s) = console s"
  by (simp_all add: after_xfer_def)

lemma next_xfer_after [simp]: "next_xfer (after_xfer c s) = bus s (Suc (bus_calls s))"
  by (simp add: next_xfer_def)

lemma mlx_read_data_filter:
  "smoothed_z (snd (mlx_read_data s)) = smoothed_z s"
  "first_mag_reading (snd (mlx_read_data s)) = first_mag_reading s"
  by (simp_all add: mlx_read_data_eq mlx_start_measurement_eq mlx_read_measurement_eq)

lemma mlx_init_eq:
  "mlx_init s =
     (if fst (mlx_exit_mode s) then
        (if fst (mlx_reset (snd (mlx_exit_mode s)))
         then (True, (snd (mlx_reset (snd (mlx_exit_mode s))))\<lparr>mlx_initialized := True\<rparr>)
         else (False, snd (mlx_reset (snd (mlx_exit_mode s)))))
      else (False, snd (mlx_exit_mode s)))"
  by (simp add: mlx_init_def split: prod.splits bool.splits)

lemma loop_body_idle:
  "\<not> mlx_initialized s \<Longrightarrow>
   (loop_body ^^ n) s = s\<lparr>console := console s @ replicate n Not_initialized\<rparr>"
proof (induction n)
  case 0
  then show ?case by simp
next
  case (Suc n)
  then show ?case by (simp add: loop_body_def replicate_append_same)
qed

lemma status_code_drop_bit: "status_code b = unat (drop_bit 2 b)"
  by (simp add: status_code_def unat_drop_bit_eq drop_bit_eq_div unat_div)

lemma status_code_lt: "status_code b < 64"
  using unsigned_less [of b, where 'a = nat] by (simp add: status_code_def)

section \<open>Status codes\<close>

text \<open>
  C2. In every command exchange the status code is the status byte shifted right by two
  bits, a number below 64, and it decides the outcome once the bus has delivered:
  \<open>mlx_exit_mode\<close> returns true exactly for the code \<open>0x00\<close>, \<open>mlx_reset\<close> exactly for
  \<open>0x01\<close>, \<open>mlx_start_measurement\<close> exactly for \<open>0x00\<close> and \<open>0x08\<close>, and
  \<open>mlx_read_measurement\<close> delivers a value exactly for \<open>0x00\<close>; with any other code it
  returns false and no value is produced from the data bytes.
\<close>

theorem status_code_decides_success:
  "(fst (mlx_exit_mode s) \<longleftrightarrow>
      xfer_ok (next_xfer s) \<and> status_code (rd_buf (next_xfer s) 0) = 0x00) \<and>
   (fst (mlx_reset s) \<longleftrightarrow>
      xfer_ok (next_xfer s) \<and> status_code (rd_buf (next_xfer s) 0) = 0x01) \<and>
   (fst (mlx_start_measurement s) \<longleftrightarrow>
      xfer_ok (next_xfer s) \<and>
      (status_code (rd_buf (next_xfer s) 0) = 0x00 \<or> status_code (rd_buf (next_xfer s) 0) = 0x08)) \<and>
   (fst (mlx_read_measurement s) \<noteq> None \<longleftrightarrow>
      xfer_ok (next_xfer s) \<and> status_code (rd_buf (next_xfer s) 0) = 0x00) \<and>
   status_code b = unat (drop_bit 2 b) \<and> status_code b < 64"
  using status_code_drop_bit [of b] status_code_lt [of b]
  by (simp add: mlx_exit_mode_eq mlx_reset_eq mlx_start_measurement_eq mlx_read_measurement_eq)

text \<open>The status byte \<open>0x23\<close> has the code 8: a start succeeds on it, an exit does not.\<close>

theorem status_code_decides_success_witness:
  "fst (mlx_start_measurement (ready MLX90393_GAIN_1X MLX90393_RES_16 [delivers [0x23]])) \<and>
   \<not> fst (mlx_exit_mode (ready MLX90393_GAIN_1X MLX90393_RES_16 [delivers [0x23]])) \<and>
   status_code 0x23 = 8"
  using status_code_decides_success [of "ready MLX90393_GAIN_1X MLX90393_RES_16 [delivers [0x23]]" "0x23"]
  by (simp add: ready_def startup_def scripted_def delivers_def next_xfer_def xfer_ok_def status_code_def)

section \<open>Initialisation and the polling loop\<close>

text \<open>
  C4. Let the driver be uninitialised. If the EXIT_MODE exchange fails (the bus does not
  deliver, or the status code is not \<open>0x00\<close>), or the RESET exchange that follows it
  fails (the bus does not deliver, or the code is not \<open>0x01\<close>), then \<open>mlx_init\<close> returns
  false and \<open>mlx_initialized\<close> stays false; and however many iterations of the main loop
  follow, none of them calls \<open>mlx_transceive\<close>: the number of exchanges and the bytes
  written stay as \<open>mlx_init\<close> left them, and each iteration only prints that the sensor is
  not initialised.
\<close>

theorem failed_init_blocks_bus:
  assumes "\<not> mlx_initialized s"
    and "\<not> (xfer_ok (bus s (bus_calls s)) \<and>
            status_code (rd_buf (bus s (bus_calls s)) 0) = 0x00) \<or>
         \<not> (xfer_ok (bus s (Suc (bus_calls s))) \<and>
            status_code (rd_buf (bus s (Suc (bus_calls s))) 0) = 0x01)"
  shows "\<not> fst (mlx_init s) \<and> \<not> mlx_initialized (snd (mlx_init s)) \<and>
     (\<forall>n. bus_calls ((loop_body ^^ n) (snd (mlx_init s))) = bus_calls (snd (mlx_init s)) \<and>
          tx_log ((loop_body ^^ n) (snd (mlx_init s))) = tx_log (snd (mlx_init s)) \<and>
          console ((loop_body ^^ n) (snd (mlx_init s))) =
            console (snd (mlx_init s)) @ replicate n Not_initialized)"
proof -
  have f: "\<not> fst (mlx_init s)"
    using assms(2) by (auto simp: mlx_init_eq mlx_exit_mode_eq mlx_reset_eq next_xfer_def)
  have u: "\<not> mlx_initialized (snd (mlx_init s))"
    using assms by (auto simp: mlx_init_eq mlx_exit_mode_eq mlx_reset_eq next_xfer_def)
  show ?thesis
    using f u by (simp add: loop_body_idle)
qed

text \<open>
  Two runs from the start of \<open>main\<close>: the sensor does not acknowledge EXIT_MODE; and
  the sensor answers RESET with the code \<open>0x00\<close> instead of \<open>0x01\<close>.
\<close>

theorem failed_init_blocks_bus_witness:
  "\<not> mlx_initialized (startup (scripted [nack])) \<and>
   \<not> fst (mlx_init (startup (scripted [nack]))) \<and>
   \<not> mlx_initialized (main_setup (scripted [nack])) \<and>
   bus_calls ((loop_body ^^ 5) (main_setup (scripted [nack]))) =
     bus_calls (main_setup (scripted [nack])) \<and>
   \<not> fst (mlx_init (startup (scripted [delivers [0], delivers [0]]))) \<and>
   tx_log ((loop_body ^^ 5) (main_setup (scripted [delivers [0], delivers [0]]))) =
     tx_log (main_setup (scripted [delivers [0], delivers [0]]))"
  using failed_init_blocks_bus [of "startup (scripted [nack])"]
    failed_init_blocks_bus [of "startup (scripted [delivers [0], delivers [0]])"]
  by (simp add: main_setup_def startup_def scripted_def nack_def delivers_def xfer_ok_def status_code_def)

text \<open>
  C5. A polling cycle fails exactly when the bus does not deliver on the start or on the
  read, or the start is answered with a code other than \<open>0x00\<close> and \<open>0x08\<close>, or the read
  with a code other than \<open>0x00\<close> (such as \<open>0x04\<close>). Whenever it fails, the loop leaves
  \<open>smoothed_z\<close> and \<open>first_mag_reading\<close> as they were before the cycle.
\<close>

theorem failed_cycle_keeps_filter:
  "(fst (mlx_read_data s) = None \<longleftrightarrow>
      \<not> (xfer_ok (bus s (bus_calls s)) \<and>
           (status_code (rd_buf (bus s (bus_calls s)) 0) = 0x00 \<or>
            status_code (rd_buf (bus s (bus_calls s)) 0) = 0x08) \<and>
         xfer_ok (bus s (Suc (bus_calls s))) \<and>
           status_code (rd_buf (bus s (Suc (bus_calls s))) 0) = 0x00)) \<and>
   (fst (mlx_read_data s) = None \<longrightarrow>
      smoothed_z (loop_body s) = smoothed_z s \<and>
      first_mag_reading (loop_body s) = first_mag_reading s)"
proof -
  have a: "fst (mlx_read_data s) = None \<Longrightarrow> smoothed_z (loop_body s) = smoothed_z s \<and>
      first_mag_reading (loop_body s) = first_mag_reading s"
    using mlx_read_data_filter [of s]
    by (cases "mlx_read_data s") (auto simp: loop_body_def)
  show ?thesis
    using a by (auto simp: mlx_read_data_eq mlx_start_measurement_eq mlx_read_measurement_eq next_xfer_def)
qed

text \<open>A cycle whose read is answered with the status byte \<open>0x10\<close>, that is the code \<open>0x04\<close>.\<close>

theorem failed_cycle_keeps_filter_witness:
  "fst (mlx_read_data (ready MLX90393_GAIN_1X MLX90393_RES_16
      [delivers [0], delivers [0x10, 0, 0, 0, 0, 0, 0x64]])) = None \<and>
   smoothed_z (loop_body (ready MLX90393_GAIN_1X MLX90393_RES_16
      [delivers [0], delivers [0x10, 0, 0, 0, 0, 0, 0x64]])) =
   smoothed_z (ready MLX90393_GAIN_1X MLX90393_RES_16
      [delivers [0], delivers [0x10, 0, 0, 0, 0, 0, 0x64]]) \<and>
   first_mag_reading (loop_body (ready MLX90393_GAIN_1X MLX90393_RES_16
      [delivers [0], delivers [0x10, 0, 0, 0, 0, 0, 0x64]])) =
   first_mag_reading (ready MLX90393_GAIN_1X MLX90393_RES_16
      [delivers [0], delivers [0x10, 0, 0, 0, 0, 0, 0x64]])"
  using failed_cycle_keeps_filter [of "ready MLX90393_GAIN_1X MLX90393_RES_16
      [delivers [0], delivers [0x10, 0, 0, 0, 0, 0, 0x64]]"]
  by (simp add: ready_def startup_def scripted_def delivers_def xfer_ok_def status_code_def)

section \<open>The measurement decoder\<close>

subsection \<open>Evaluated samples and counts\<close>

lemmas fixture_defs = ready_def startup_def scripted_def z_sample_def delivers_def nack_def
  next_xfer_def xfer_ok_def status_code_def

lemmas decoder_defs = MeasurementDecoder_wrapping_def MeasurementDecoder_stated_def
  be_signed16_def wrap16_def

lemma field_1X_16_100: "field_of_count (scale 0 MLX90393_GAIN_1X MLX90393_RES_16 (Suc 0)) 100 = Fin (656153 / 32768)"
  by code_simp

lemma field_xy_1X_16_100: "field_of_count (scale 0 MLX90393_GAIN_1X MLX90393_RES_16 0) 100 = Fin (1311703 / 65536)"
  by code_simp

lemma field_1X_18_32767: "field_of_count (scale 0 MLX90393_GAIN_1X MLX90393_RES_18 (Suc 0)) 32767 = Fin (6778841 / 131072)"
  by code_simp

lemma field_1X_18_m32769: "field_of_count (scale 0 MLX90393_GAIN_1X MLX90393_RES_18 (Suc 0)) (- 32769) = Fin 0"
  by code_simp

lemma field_1X_18_m32668: "field_of_count (scale 0 MLX90393_GAIN_1X MLX90393_RES_18 (Suc 0)) (- 32668) = Fin 0"
  by code_simp

lemma wrapping_eq_stated:
  "- 32768 \<le> be_signed16 hi lo - resolution_offset r \<Longrightarrow>
   MeasurementDecoder_wrapping h g r hi lo = MeasurementDecoder_stated h g r hi lo"
  using be_signed16_range [of hi lo]
  by (cases r) (simp_all add: MeasurementDecoder_wrapping_def MeasurementDecoder_stated_def wrap16_id)

lemma field_1X_16_m1: "field_of_count (scale 0 MLX90393_GAIN_1X MLX90393_RES_16 (Suc 0)) (- 1) = Fin (10485633 / 524288)"
  by code_simp

lemma scale_1X_16_z: "scale 0 MLX90393_GAIN_1X MLX90393_RES_16 (Suc 0) = lit (242 / 1000)"
  by code_simp

lemma scale_1X_16_xy: "scale 0 MLX90393_GAIN_1X MLX90393_RES_16 0 = lit (150 / 1000)"
  by code_simp

lemma claimed_example_value: "field_of_count (lit (150 / 1000)) 100 = Fin (1311703 / 65536)"
  by code_simp

lemma z_example_value: "field_of_count (lit (242 / 1000)) 100 = Fin (656153 / 32768)"
  by code_simp

lemma wrap16_period: "wrap16 (n + 65536) = wrap16 n"
proof -
  have e: "n + 65536 + 32768 = (n + 32768) + 65536" by arith
  show ?thesis
    unfolding wrap16_def by (subst e) (simp only: mod_add_self2)
qed

lemma wrap16_sign_bit:
  assumes "- 32768 \<le> zi" and "zi < 32768"
  shows "wrap16 (zi - 0x8000) = (if 0 \<le> zi then zi - 0x8000 else zi + 0x8000)"
proof (cases "0 \<le> zi")
  case True
  then show ?thesis using assms by (simp add: wrap16_id)
next
  case False
  have "wrap16 (zi - 0x8000) = wrap16 ((zi - 0x8000) + 65536)"
    by (simp only: wrap16_period)
  also have "\<dots> = zi + 0x8000"
    using assms False by (simp add: wrap16_id)
  finally show ?thesis using False by simp
qed

lemma offsets_clamped_sample:
  "\<not> offset_relation (Fin (656153 / 32768)) (Fin 0) (scale 0 MLX90393_GAIN_1X MLX90393_RES_18 1)"
  "\<not> offset_relation (Fin (656153 / 32768)) (Fin 0) (scale 0 MLX90393_GAIN_1X MLX90393_RES_16 1)"
  by code_simp+

lemma offsets_unclamped_sample:
  "\<not> offset_relation (Fin (10485633 / 524288)) (Fin (6778841 / 131072))
       (scale 0 MLX90393_GAIN_1X MLX90393_RES_18 1)"
  "\<not> offset_relation (Fin (10485633 / 524288)) (Fin (6778841 / 131072))
       (scale 0 MLX90393_GAIN_1X MLX90393_RES_16 1)"
  by code_simp+

lemma z_factor_halves_differ:
  "mlx90393_lsb_lookup 0 (gain_index g) (res_index r) 1 \<noteq>
   mlx90393_lsb_lookup 1 (gain_index g) (res_index r) 1"
  by (cases g; cases r; simp only: gain_index.simps res_index.simps; code_simp)

lemma round32_coarse:
  assumes "\<bar>r\<bar> \<le> 2 ^ 20"
  shows "\<exists>v. round32 r = Fin v \<and> \<bar>v - r\<bar> \<le> 1 / 8"
proof -
  have "\<bar>r\<bar> \<le> 2 ^ 126"
    using assms by (rule order_trans) simp
  then obtain v where v: "round32 r = Fin v" "\<bar>v - r\<bar> \<le> \<bar>r\<bar> / 2 ^ 24 + 1 / 2 ^ 150"
    using round32_err by blast
  have "\<bar>r\<bar> / 2 ^ 24 + 1 / 2 ^ 150 \<le> 1 / 8"
    using assms by simp
  then show ?thesis
    using v by (intro exI [of _ v]) simp
qed

lemma field_of_count_rounds:
  assumes "\<bar>of_int m * k\<bar> \<le> 2 ^ 20"
  shows "\<exists>p d s. round32 (of_int m * k) = Fin p \<and> \<bar>p - of_int m * k\<bar> \<le> 1 / 8 \<and>
      round32 (p / 1000) = Fin d \<and> \<bar>d - p / 1000\<bar> \<le> 1 / 8 \<and>
      round32 (d + 20) = Fin s \<and> \<bar>s - (d + 20)\<bar> \<le> 1 / 8 \<and>
      field_of_count (Fin k) m = (if s < 0 then Fin 0 else Fin s)"
proof -
  define r where "r = rat_of_int m * k"
  have r: "\<bar>r\<bar> \<le> 2 ^ 20" using assms by (simp add: r_def)
  then obtain p where p: "round32 r = Fin p" "\<bar>p - r\<bar> \<le> 1 / 8"
    using round32_coarse by blast
  have r': "\<bar>r\<bar> \<le> 1048576" using r by simp
  have pb: "\<bar>p\<bar> \<le> 1048577"
    using p(2) r' by linarith
  have pq: "\<bar>p / 1000\<bar> = \<bar>p\<bar> / 1000" by simp
  have "\<bar>p / 1000\<bar> \<le> 1048576"
    unfolding pq using pb by linarith
  then have "\<bar>p / 1000\<bar> \<le> 2 ^ 20" by simp
  then obtain d where d: "round32 (p / 1000) = Fin d" "\<bar>d - p / 1000\<bar> \<le> 1 / 8"
    using round32_coarse by blast
  have "\<bar>d\<bar> \<le> \<bar>p\<bar> / 1000 + 1 / 8"
    using d(2) unfolding pq [symmetric] by linarith
  then have "\<bar>d + 20\<bar> \<le> 1048576"
    using pb by linarith
  then have "\<bar>d + 20\<bar> \<le> 2 ^ 20" by simp
  then obtain s where s: "round32 (d + 20) = Fin s" "\<bar>s - (d + 20)\<bar> \<le> 1 / 8"
    using round32_coarse by blast
  have "field_of_count (Fin k) m = (if s < 0 then Fin 0 else Fin s)"
    using p(1) d(1) s(1) by (simp add: field_of_count_def Let_def r_def)
  then show ?thesis
    using p d s unfolding r_def by blast
qed

lemma field_of_count_upper_half:
  assumes "0 \<le> m" and "m \<le> 32767" and "0 \<le> k" and "k \<le> 11"
  shows "\<exists>v. field_of_count (Fin k) m = Fin v \<and> 19 \<le> v"
proof -
  define r where "r = rat_of_int m * k"
  have m: "0 \<le> rat_of_int m" "rat_of_int m \<le> 32767"
    using assms(1,2) by simp_all
  have r0: "0 \<le> r"
    using m(1) assms(3) by (simp add: r_def)
  have "r \<le> 32767 * 11"
    unfolding r_def using m assms(3,4) by (intro mult_mono) simp_all
  then have rb: "\<bar>r\<bar> \<le> 2 ^ 20"
    using r0 by simp
  obtain p d s where *: "\<bar>p - r\<bar> \<le> 1 / 8" "\<bar>d - p / 1000\<bar> \<le> 1 / 8" "\<bar>s - (d + 20)\<bar> \<le> 1 / 8"
    "field_of_count (Fin k) m = (if s < 0 then Fin 0 else Fin s)"
    using field_of_count_rounds [of m k] rb unfolding r_def by blast
  have "19 \<le> s"
    using * r0 by linarith
  then show ?thesis
    using *(4) by simp
qed

lemma field_of_count_lower_half:
  assumes "- 65536 \<le> n" and "n \<le> - 32769" and "9 / 10 \<le> k" and "k \<le> 11"
  shows "field_of_count (Fin k) n = Fin 0"
proof -
  define r where "r = rat_of_int n * k"
  have n: "- 65536 \<le> rat_of_int n" "rat_of_int n \<le> - 32769"
    using assms(1,2) by simp_all
  have "rat_of_int n * k \<le> rat_of_int n * (9 / 10)"
    using assms(3) n(2) by (intro mult_left_mono_neg) simp_all
  then have hi: "r \<le> - 29492"
    using n(2) unfolding r_def by linarith
  have "rat_of_int n * 11 \<le> rat_of_int n * k"
    using assms(4) n(2) by (intro mult_left_mono_neg) simp_all
  then have lo: "- 720896 \<le> r"
    using n(1) unfolding r_def by linarith
  have rb: "\<bar>r\<bar> \<le> 2 ^ 20"
    using hi lo by simp
  obtain p d s where *: "\<bar>p - r\<bar> \<le> 1 / 8" "\<bar>d - p / 1000\<bar> \<le> 1 / 8" "\<bar>s - (d + 20)\<bar> \<le> 1 / 8"
    "field_of_count (Fin k) n = (if s < 0 then Fin 0 else Fin s)"
    using field_of_count_rounds [of n k] rb unfolding r_def by blast
  have "s < 0"
    using * hi by linarith
  then show ?thesis
    using *(4) by simp
qed

lemma flt_between: "flt (Fin a) x \<Longrightarrow> flt x (Fin b) \<Longrightarrow> \<exists>k. x = Fin k \<and> a < k \<and> k < b"
  by (cases x) simp_all

lemma z_factor_18: "flt (Fin (9 / 10)) (scale 0 g MLX90393_RES_18 (Suc 0)) \<and>
    flt (scale 0 g MLX90393_RES_18 (Suc 0)) (Fin 11)"
  by (cases g; hypsubst_thin; code_simp)

lemma z_factor_19: "flt (Fin (9 / 10)) (scale 0 g MLX90393_RES_19 (Suc 0)) \<and>
    flt (scale 0 g MLX90393_RES_19 (Suc 0)) (Fin 11)"
  by (cases g; hypsubst_thin; code_simp)

lemma z_factor_range:
  assumes "r = MLX90393_RES_18 \<or> r = MLX90393_RES_19"
  shows "\<exists>k. scale 0 g r (Suc 0) = Fin k \<and> 9 / 10 < k \<and> k < 11"
proof -
  have "flt (Fin (9 / 10)) (scale 0 g r (Suc 0))" "flt (scale 0 g r (Suc 0)) (Fin 11)"
    using assms z_factor_18 [of g] z_factor_19 [of g] by auto
  then show ?thesis by (rule flt_between)
qed

lemma field_1X_19_16383:
  "field_of_count (scale 0 MLX90393_GAIN_1X MLX90393_RES_19 (Suc 0)) 16383 = Fin (13557429 / 262144)"
  by code_simp

lemma stated_differs_when_wrapping:
  assumes "be_signed16 hi lo - resolution_offset r < - 32768"
  shows "MeasurementDecoder_wrapping 0 g r hi lo \<noteq> MeasurementDecoder_stated 0 g r hi lo"
proof -
  define n where "n = be_signed16 hi lo - resolution_offset r"
  have b: "- 32768 \<le> be_signed16 hi lo" "be_signed16 hi lo < 32768"
    using be_signed16_range by simp_all
  have r: "r = MLX90393_RES_18 \<or> r = MLX90393_RES_19"
    using assms b by (cases r) simp_all
  have n: "- 65536 \<le> n" "n \<le> - 32769"
    using assms b r by (auto simp: n_def)
  obtain k where k: "scale 0 g r (Suc 0) = Fin k" "9 / 10 < k" "k < 11"
    using z_factor_range [OF r] by blast
  have "wrap16 n = wrap16 (n + 65536)"
    by (simp only: wrap16_period)
  also have "\<dots> = n + 65536"
    using n by (intro wrap16_id) simp_all
  finally have w: "wrap16 n = n + 65536" .
  obtain v where v: "field_of_count (Fin k) (n + 65536) = Fin v" "19 \<le> v"
    using field_of_count_upper_half [of "n + 65536" k] n k by auto
  have z: "field_of_count (Fin k) n = Fin 0"
    using field_of_count_lower_half [of n k] n k by simp
  show ?thesis
    using v z w k(1)
    by (simp add: MeasurementDecoder_wrapping_def MeasurementDecoder_stated_def n_def [symmetric])
qed

subsection \<open>The decoding steps\<close>

text \<open>
  C1, as amended. When the READ_MEASUREMENT exchange succeeds with the status code
  \<open>0x00\<close>, \<open>mlx_read_measurement\<close> returns the value of the stated pipeline with the
  resolution correction kept in the signed 16-bit variable: the count is the big-endian
  two's-complement value of the two bytes, reduced by \<open>0x8000\<close> at 18 bit and by \<open>0x4000\<close> at
  19 bit modulo \<open>2 ^ 16\<close> (no correction at 16 and 17 bit); it is multiplied by the Z factor
  of the first table half for the gain and the resolution, divided by 1000, increased by
  20 and floored at zero. For every gain, resolution and byte pair this value equals that of
  the pipeline with the plain subtraction exactly when the reduced count is not below
  \<open>-32768\<close>, which is always the case at 16 and 17 bit.
\<close>

theorem decode_pipeline:
  assumes "xfer_ok (next_xfer s)" and "status_code (rd_buf (next_xfer s) 0) = 0x00"
  shows "fst (mlx_read_measurement s) =
      Some (MeasurementDecoder_wrapping 0 (mlx_gain s) (mlx_res_z s)
              (rd_buf (next_xfer s) 5) (rd_buf (next_xfer s) 6)) \<and>
    (MeasurementDecoder_wrapping 0 g r hi lo = MeasurementDecoder_stated 0 g r hi lo \<longleftrightarrow>
       - 32768 \<le> be_signed16 hi lo - resolution_offset r)"
proof -
  have "MeasurementDecoder_wrapping 0 g r hi lo = MeasurementDecoder_stated 0 g r hi lo \<longleftrightarrow>
       - 32768 \<le> be_signed16 hi lo - resolution_offset r"
    using wrapping_eq_stated [of hi lo r 0 g] stated_differs_when_wrapping [of hi lo r g]
    by fastforce
  then show ?thesis
    using assms by (simp add: mlx_read_measurement_eq)
qed

text \<open>
  The bytes \<open>0xFF, 0xFF\<close> at 18 bit, where the count wraps to 32767 and the plain
  subtraction differs; the bytes \<open>0x7F, 0xFF\<close> at 19 bit, where the count is 16383 and
  nothing wraps; and the bytes \<open>0x00, 0x64\<close> at 16 bit. The gain is 1X.
\<close>

theorem decode_pipeline_witness:
  "fst (mlx_read_measurement (ready MLX90393_GAIN_1X MLX90393_RES_18 [z_sample 0xFF 0xFF])) =
     Some (Fin (6778841 / 131072)) \<and>
   MeasurementDecoder_wrapping 0 MLX90393_GAIN_1X MLX90393_RES_18 0xFF 0xFF \<noteq>
     MeasurementDecoder_stated 0 MLX90393_GAIN_1X MLX90393_RES_18 0xFF 0xFF \<and>
   fst (mlx_read_measurement (ready MLX90393_GAIN_1X MLX90393_RES_19 [z_sample 0x7F 0xFF])) =
     Some (Fin (13557429 / 262144)) \<and>
   MeasurementDecoder_stated 0 MLX90393_GAIN_1X MLX90393_RES_19 0x7F 0xFF = Fin (13557429 / 262144) \<and>
   fst (mlx_read_measurement (ready MLX90393_GAIN_1X MLX90393_RES_16 [z_sample 0x00 0x64])) =
     Some (Fin (656153 / 32768)) \<and>
   MeasurementDecoder_stated 0 MLX90393_GAIN_1X MLX90393_RES_16 0x00 0x64 = Fin (656153 / 32768)"
  using decode_pipeline [where s = "ready MLX90393_GAIN_1X MLX90393_RES_18 [z_sample 0xFF 0xFF]"
      and hi = "0xFF" and lo = "0xFF" and r = MLX90393_RES_18 and g = MLX90393_GAIN_1X]
    decode_pipeline [where s = "ready MLX90393_GAIN_1X MLX90393_RES_19 [z_sample 0x7F 0xFF]"
      and hi = "0x7F" and lo = "0xFF" and r = MLX90393_RES_19 and g = MLX90393_GAIN_1X]
    decode_pipeline [where s = "ready MLX90393_GAIN_1X MLX90393_RES_16 [z_sample 0x00 0x64]"
      and hi = "0x00" and lo = "0x64" and r = MLX90393_RES_16 and g = MLX90393_GAIN_1X]
  by (simp add: fixture_defs decoder_defs field_1X_16_100 field_1X_18_32767 field_1X_18_m32769
      field_1X_19_16383)

text \<open>
  C1, as stated, fails for the bytes \<open>0xFF, 0xFF\<close> at 18 bit: the count \<open>-1\<close> reduced by
  \<open>0x8000\<close> is \<open>-32769\<close>, which the stated pipeline floors to 0 mT, while the \<open>int16_t\<close>
  variable of the program wraps to \<open>32767\<close> and the program returns about 51.7 mT.
\<close>

theorem decode_stated_counterexample:
  "fst (mlx_read_measurement (ready MLX90393_GAIN_1X MLX90393_RES_18 [z_sample 0xFF 0xFF])) =
     Some (Fin (6778841 / 131072)) \<and>
   MeasurementDecoder_stated 0 MLX90393_GAIN_1X MLX90393_RES_18 0xFF 0xFF = Fin 0 \<and>
   fst (mlx_read_measurement (ready MLX90393_GAIN_1X MLX90393_RES_18 [z_sample 0xFF 0xFF])) \<noteq>
     Some (MeasurementDecoder_stated 0 MLX90393_GAIN_1X MLX90393_RES_18 0xFF 0xFF)"
  by (simp add: mlx_read_measurement_eq fixture_defs decoder_defs field_1X_18_32767 field_1X_18_m32769)

text \<open>
  C3, as amended. With gain 1X and 16 bit, a successful read of the Z bytes \<open>0x00, 0x64\<close>
  returns the binary32 value of \<open>100 * 0.242 / 1000 + 20\<close> floored at zero, which is
  \<open>656153 / 32768\<close> (about 20.0242): \<open>0.242\<close> is the Z factor of that table entry and
  \<open>0.150\<close> its XY factor.
\<close>

theorem example_decode_value:
  assumes "xfer_ok (next_xfer s)" and "status_code (rd_buf (next_xfer s) 0) = 0x00"
    and "mlx_gain s = MLX90393_GAIN_1X" and "mlx_res_z s = MLX90393_RES_16"
    and "rd_buf (next_xfer s) 5 = 0x00" and "rd_buf (next_xfer s) 6 = 0x64"
  shows "fst (mlx_read_measurement s) = Some (field_of_count (lit (242 / 1000)) 100) \<and>
    field_of_count (lit (242 / 1000)) 100 = Fin (656153 / 32768) \<and>
    scale 0 MLX90393_GAIN_1X MLX90393_RES_16 1 = lit (242 / 1000) \<and>
    scale 0 MLX90393_GAIN_1X MLX90393_RES_16 0 = lit (150 / 1000)"
proof -
  have "fst (mlx_read_measurement s) =
      Some (field_of_count (scale 0 MLX90393_GAIN_1X MLX90393_RES_16 (Suc 0)) 100)"
    using assms by (simp add: mlx_read_measurement_eq decoder_defs)
  then show ?thesis
    using scale_1X_16_z scale_1X_16_xy z_example_value by simp
qed

theorem example_decode_value_witness:
  "fst (mlx_read_measurement (ready MLX90393_GAIN_1X MLX90393_RES_16 [z_sample 0x00 0x64])) =
     Some (Fin (656153 / 32768))"
  using example_decode_value [of "ready MLX90393_GAIN_1X MLX90393_RES_16 [z_sample 0x00 0x64]"]
  by (simp add: fixture_defs)

text \<open>
  C3, as stated, fails: the value returned for these bytes, about 20.0242, is not the
  value of \<open>100 * 0.150 / 1000 + 20\<close>, which is \<open>1311703 / 65536\<close>, about 20.0150.
\<close>

theorem example_decode_xy_counterexample:
  "fst (mlx_read_measurement (ready MLX90393_GAIN_1X MLX90393_RES_16 [z_sample 0x00 0x64])) =
     Some (Fin (656153 / 32768)) \<and>
   field_of_count (lit (150 / 1000)) 100 = Fin (1311703 / 65536) \<and>
   fst (mlx_read_measurement (ready MLX90393_GAIN_1X MLX90393_RES_16 [z_sample 0x00 0x64])) \<noteq>
     Some (field_of_count (lit (150 / 1000)) 100)"
proof -
  have "fst (mlx_read_measurement (ready MLX90393_GAIN_1X MLX90393_RES_16 [z_sample 0x00 0x64])) =
      Some (Fin (656153 / 32768))"
    by (simp add: mlx_read_measurement_eq fixture_defs decoder_defs field_1X_16_100)
  then show ?thesis
    unfolding claimed_example_value by simp
qed

text \<open>
  C8, as amended. For the same successful read and the same gain, the count decoded at
  18 bit is the count \<open>zi\<close> decoded at 16 bit reduced by \<open>0x8000\<close> modulo \<open>2 ^ 16\<close>, that is
  \<open>zi - 0x8000\<close> for a non-negative \<open>zi\<close> and \<open>zi + 0x8000\<close> for a negative one, and each
  count is scaled by the factor of its own resolution before the offset of 20 and the floor
  at zero are applied.
\<close>

theorem resolution_18_versus_16:
  assumes "xfer_ok (next_xfer s)" and "status_code (rd_buf (next_xfer s) 0) = 0x00"
    and "zi = be_signed16 (rd_buf (next_xfer s) 5) (rd_buf (next_xfer s) 6)"
  shows "fst (mlx_read_measurement (s\<lparr>mlx_res_z := MLX90393_RES_16\<rparr>)) =
      Some (field_of_count (scale 0 (mlx_gain s) MLX90393_RES_16 1) zi) \<and>
    fst (mlx_read_measurement (s\<lparr>mlx_res_z := MLX90393_RES_18\<rparr>)) =
      Some (field_of_count (scale 0 (mlx_gain s) MLX90393_RES_18 1) (wrap16 (zi - 0x8000))) \<and>
    wrap16 (zi - 0x8000) = (if 0 \<le> zi then zi - 0x8000 else zi + 0x8000)"
proof -
  have r: "- 32768 \<le> zi" "zi < 32768"
    using be_signed16_range assms(3) by simp_all
  have w: "wrap16 (zi - 0x8000) = (if 0 \<le> zi then zi - 0x8000 else zi + 0x8000)"
    using r by (rule wrap16_sign_bit)
  have n: "next_xfer (s\<lparr>mlx_res_z := MLX90393_RES_16\<rparr>) = next_xfer s"
    "next_xfer (s\<lparr>mlx_res_z := MLX90393_RES_18\<rparr>) = next_xfer s"
    by (simp_all add: next_xfer_def)
  show ?thesis
    using assms r w
    by (simp add: mlx_read_measurement_eq n MeasurementDecoder_wrapping_def wrap16_id)
qed

theorem resolution_18_versus_16_witness:
  "fst (mlx_read_measurement
      ((ready MLX90393_GAIN_1X MLX90393_RES_17 [z_sample 0xFF 0xFF])\<lparr>mlx_res_z := MLX90393_RES_16\<rparr>)) =
     Some (Fin (10485633 / 524288)) \<and>
   fst (mlx_read_measurement
      ((ready MLX90393_GAIN_1X MLX90393_RES_17 [z_sample 0xFF 0xFF])\<lparr>mlx_res_z := MLX90393_RES_18\<rparr>)) =
     Some (Fin (6778841 / 131072)) \<and>
   wrap16 (- 1 - 0x8000) = 32767"
  using resolution_18_versus_16 [of "ready MLX90393_GAIN_1X MLX90393_RES_17 [z_sample 0xFF 0xFF]" "- 1"]
  by (simp add: fixture_defs be_signed16_def field_1X_16_m1 field_1X_18_32767)

text \<open>
  C8, as stated, fails. For the bytes \<open>0x00, 0x64\<close> the 16-bit value is about 20.02 mT and
  the 18-bit value is floored to 0; for the bytes \<open>0xFF, 0xFF\<close>, where nothing is floored,
  the values are about 19.9998 mT and 51.72 mT. In neither case is the difference
  \<open>0x8000\<close> counts times the factor of one of the two resolutions.
\<close>

theorem offset_relation_counterexample:
  "fst (mlx_read_measurement (ready MLX90393_GAIN_1X MLX90393_RES_16 [z_sample 0x00 0x64])) =
     Some (Fin (656153 / 32768)) \<and>
   fst (mlx_read_measurement (ready MLX90393_GAIN_1X MLX90393_RES_18 [z_sample 0x00 0x64])) =
     Some (Fin 0) \<and>
   \<not> offset_relation (Fin (656153 / 32768)) (Fin 0) (scale 0 MLX90393_GAIN_1X MLX90393_RES_18 1) \<and>
   \<not> offset_relation (Fin (656153 / 32768)) (Fin 0) (scale 0 MLX90393_GAIN_1X MLX90393_RES_16 1) \<and>
   fst (mlx_read_measurement (ready MLX90393_GAIN_1X MLX90393_RES_16 [z_sample 0xFF 0xFF])) =
     Some (Fin (10485633 / 524288)) \<and>
   fst (mlx_read_measurement (ready MLX90393_GAIN_1X MLX90393_RES_18 [z_sample 0xFF 0xFF])) =
     Some (Fin (6778841 / 131072)) \<and>
   \<not> offset_relation (Fin (10485633 / 524288)) (Fin (6778841 / 131072))
       (scale 0 MLX90393_GAIN_1X MLX90393_RES_18 1) \<and>
   \<not> offset_relation (Fin (10485633 / 524288)) (Fin (6778841 / 131072))
       (scale 0 MLX90393_GAIN_1X MLX90393_RES_16 1)"
proof -
  have a: "fst (mlx_read_measurement (ready MLX90393_GAIN_1X MLX90393_RES_16 [z_sample 0x00 0x64])) =
      Some (Fin (656153 / 32768))"
    by (simp add: mlx_read_measurement_eq fixture_defs decoder_defs field_1X_16_100)
  have b: "fst (mlx_read_measurement (ready MLX90393_GAIN_1X MLX90393_RES_18 [z_sample 0x00 0x64])) =
      Some (Fin 0)"
    by (simp add: mlx_read_measurement_eq fixture_defs decoder_defs field_1X_18_m32668)
  have c: "fst (mlx_read_measurement (ready MLX90393_GAIN_1X MLX90393_RES_16 [z_sample 0xFF 0xFF])) =
      Some (Fin (10485633 / 524288))"
    by (simp add: mlx_read_measurement_eq fixture_defs decoder_defs field_1X_16_m1)
  have d: "fst (mlx_read_measurement (ready MLX90393_GAIN_1X MLX90393_RES_18 [z_sample 0xFF 0xFF])) =
      Some (Fin (6778841 / 131072))"
    by (simp add: mlx_read_measurement_eq fixture_defs decoder_defs field_1X_18_32767)
  show ?thesis
    using a b c d offsets_clamped_sample offsets_unclamped_sample by blast
qed

text \<open>
  C10. The result of \<open>mlx_read_measurement\<close> is determined by the gain, the resolution and
  the bus exchange alone. When it delivers a value, the factor is the Z entry of the first
  half (index 0, HALLCONF \<open>0xC\<close>) of the table, and for every gain and resolution that entry
  differs from the entry of the second half.
\<close>

theorem scale_factor_from_first_half:
  "(mlx_gain s1 = mlx_gain s2 \<and> mlx_res_z s1 = mlx_res_z s2 \<and> next_xfer s1 = next_xfer s2 \<longrightarrow>
      fst (mlx_read_measurement s1) = fst (mlx_read_measurement s2)) \<and>
   (fst (mlx_read_measurement s) \<noteq> None \<longrightarrow>
      fst (mlx_read_measurement s) =
        Some (field_of_count
               (mlx90393_lsb_lookup 0 (gain_index (mlx_gain s)) (res_index (mlx_res_z s)) 1)
               (wrap16 (be_signed16 (rd_buf (next_xfer s) 5) (rd_buf (next_xfer s) 6) -
                  resolution_offset (mlx_res_z s))))) \<and>
   mlx90393_lsb_lookup 0 (gain_index g) (res_index r) 1 \<noteq>
     mlx90393_lsb_lookup 1 (gain_index g) (res_index r) 1"
  using z_factor_halves_differ [of g r]
  by (simp add: mlx_read_measurement_eq MeasurementDecoder_wrapping_def scale_def)

text \<open>Two states that differ in the filter, the flag and the console decode alike.\<close>

theorem scale_factor_from_first_half_witness:
  "fst (mlx_read_measurement (ready MLX90393_GAIN_1X MLX90393_RES_16 [z_sample 0x00 0x64])) =
   fst (mlx_read_measurement
     ((ready MLX90393_GAIN_1X MLX90393_RES_16 [z_sample 0x00 0x64])
        \<lparr>smoothed_z := Fin 5, first_mag_reading := False, mlx_initialized := False,
         console := [Z_error]\<rparr>)) \<and>
   fst (mlx_read_measurement (ready MLX90393_GAIN_1X MLX90393_RES_16 [z_sample 0x00 0x64])) =
     Some (Fin (656153 / 32768))"
  using scale_factor_from_first_half [of
      "ready MLX90393_GAIN_1X MLX90393_RES_16 [z_sample 0x00 0x64]"
      "(ready MLX90393_GAIN_1X MLX90393_RES_16 [z_sample 0x00 0x64])
        \<lparr>smoothed_z := Fin 5, first_mag_reading := False, mlx_initialized := False,
         console := [Z_error]\<rparr>"
      "ready MLX90393_GAIN_1X MLX90393_RES_16 [z_sample 0x00 0x64]"]
  by (simp add: mlx_read_measurement_eq fixture_defs decoder_defs scale_def [symmetric] field_1X_16_100)

subsection \<open>Signs of the outputs\<close>

lemma round32_not_nan: "round32 r \<noteq> NaN"
  by (simp add: round32_def Let_def)

lemma fmul_fin_not_nan: "fmul (Fin a) (Fin b) \<noteq> NaN"
  by (simp add: round32_not_nan)

lemma fdiv_fin_not_nan: "x \<noteq> NaN \<Longrightarrow> b \<noteq> 0 \<Longrightarrow> fdiv x (Fin b) \<noteq> NaN"
  by (cases x) (simp_all add: round32_not_nan)

lemma fadd_fin_not_nan: "x \<noteq> NaN \<Longrightarrow> fadd x (Fin b) \<noteq> NaN"
  by (cases x) (simp_all add: round32_not_nan)

lemma fmul_pos_not_nan: "x \<noteq> NaN \<Longrightarrow> a \<noteq> 0 \<Longrightarrow> fmul (Fin a) x \<noteq> NaN"
  by (cases x) (simp_all add: round32_not_nan)

lemma fge_zero_iff: "x \<noteq> NaN \<Longrightarrow> fge x (Fin b) \<longleftrightarrow> \<not> flt x (Fin b)"
  by (cases x) simp_all

lemma floor_at_zero_nonneg: "x \<noteq> NaN \<Longrightarrow> fge (if flt x (Fin 0) then Fin 0 else x) (Fin 0)"
  by (simp add: fge_zero_iff)

lemma field_of_count_nonneg: "fge (field_of_count (Fin k) zi) (Fin 0)"
  unfolding field_of_count_def Let_def
  by (intro floor_at_zero_nonneg fadd_fin_not_nan fdiv_fin_not_nan fmul_fin_not_nan) simp

lemma z_factor_finite:
  "\<exists>k. mlx90393_lsb_lookup 0 (gain_index g) (res_index r) 1 = Fin k"
proof -
  have "mlx90393_lsb_lookup 0 (gain_index g) (res_index r) 1 \<noteq> NaN"
    by (simp add: mlx90393_lsb_lookup_def lit_def round32_not_nan)
  moreover have "mlx90393_lsb_lookup 0 (gain_index g) (res_index r) 1 \<noteq> PInf"
    by (cases g; cases r; simp only: gain_index.simps res_index.simps; code_simp)
  moreover have "mlx90393_lsb_lookup 0 (gain_index g) (res_index r) 1 \<noteq> NInf"
    by (cases g; cases r; simp only: gain_index.simps res_index.simps; code_simp)
  ultimately show ?thesis
    by (cases "mlx90393_lsb_lookup 0 (gain_index g) (res_index r) 1") simp_all
qed

lemma slope_value: "CALIBRATION_SLOPE = Fin (3403959 / 65536)"
  by code_simp

lemma intercept_value: "CALIBRATION_INTERCEPT = Fin (- (5676995 / 8192))"
  by code_simp

lemma linear_not_nan:
  "x \<noteq> NaN \<Longrightarrow> fadd (fmul CALIBRATION_SLOPE x) CALIBRATION_INTERCEPT \<noteq> NaN"
  unfolding slope_value intercept_value
  by (intro fadd_fin_not_nan fmul_pos_not_nan) simp_all

lemma calculate_force_eq:
  "calculate_force x =
     (if flt (fadd (fmul CALIBRATION_SLOPE x) CALIBRATION_INTERCEPT) (Fin 0) then Fin 0
      else fadd (fmul CALIBRATION_SLOPE x) CALIBRATION_INTERCEPT)"
  by (simp add: calculate_force_def Let_def lit_0)

lemma force_line_10:
  "fadd (fmul CALIBRATION_SLOPE (Fin 10)) CALIBRATION_INTERCEPT = Fin (- (711023 / 4096))"
  by code_simp

text \<open>
  C7. Every value that \<open>mlx_read_measurement\<close> delivers is a number (never a NaN) and is
  \<open>>= 0\<close>. For every input field value, that is for every number, finite or infinite,
  \<open>calculate_force\<close> returns a value \<open>>= 0\<close>, and it returns 0 whenever the linear result
  \<open>slope * field + intercept\<close> is negative.
\<close>

theorem outputs_nonnegative:
  "(fst (mlx_read_measurement s) = Some z \<longrightarrow> z \<noteq> NaN \<and> fge z (Fin 0)) \<and>
   (x \<noteq> NaN \<longrightarrow> fge (calculate_force x) (Fin 0)) \<and>
   (flt (fadd (fmul CALIBRATION_SLOPE x) CALIBRATION_INTERCEPT) (Fin 0) \<longrightarrow>
      calculate_force x = Fin 0)"
proof -
  obtain k where k: "mlx90393_lsb_lookup 0 (gain_index (mlx_gain s)) (res_index (mlx_res_z s)) 1 = Fin k"
    using z_factor_finite by blast
  then have k': "mlx90393_lsb_lookup 0 (gain_index (mlx_gain s)) (res_index (mlx_res_z s)) (Suc 0) = Fin k"
    by simp
  have a: "fst (mlx_read_measurement s) = Some z \<longrightarrow> fge z (Fin 0)"
    using field_of_count_nonneg [of k]
    by (auto simp: mlx_read_measurement_eq MeasurementDecoder_wrapping_def scale_def k' split: if_splits)
  have a': "fge z (Fin 0) \<Longrightarrow> z \<noteq> NaN"
    by (cases z) simp_all
  have b: "x \<noteq> NaN \<longrightarrow> fge (calculate_force x) (Fin 0)"
    using linear_not_nan [of x] by (simp add: calculate_force_eq floor_at_zero_nonneg)
  show ?thesis
    using a a' b by (auto simp: calculate_force_eq)
qed

text \<open>The decoded sample of 20.0242 mT, and the forces at 20 mT and at 10 mT.\<close>

theorem outputs_nonnegative_witness:
  "fge (Fin (656153 / 32768)) (Fin 0) \<and> fge (calculate_force (Fin 20)) (Fin 0) \<and>
   calculate_force (Fin 10) = Fin 0"
  using outputs_nonnegative [where s = "ready MLX90393_GAIN_1X MLX90393_RES_16 [z_sample 0x00 0x64]"
      and z = "Fin (656153 / 32768)" and x = "Fin 20"]
    outputs_nonnegative [where s = "ready MLX90393_GAIN_1X MLX90393_RES_16 [z_sample 0x00 0x64]"
      and z = "Fin (656153 / 32768)" and x = "Fin 10"]
  by (simp add: mlx_read_measurement_eq fixture_defs decoder_defs field_1X_16_100 force_line_10)

section \<open>The smoother\<close>

subsection \<open>The update in the main loop\<close>

lemma filter_val_value: "FILTER_VAL = Fin (13421773 / 33554432)"
  by code_simp

lemma smooth_10_20: "smooth (Fin 20) FILTER_VAL (Fin 10) = Fin 16"
  by code_simp

lemma smooth_29: "smooth (Fin 29) FILTER_VAL (Fin 29) = Fin (15204353 / 524288)"
  by code_simp

lemma filter_of_read_data: "filter_of (snd (mlx_read_data s)) = filter_of s"
  by (simp add: filter_of_def mlx_read_data_filter)

lemma console_read_data: "console (snd (mlx_read_data s)) = console s"
  by (simp add: mlx_read_data_eq mlx_start_measurement_eq mlx_read_measurement_eq)

lemma accept_reading_filter:
  "filter_of (accept_reading z s) = snd (Smoother_update z FILTER_VAL (filter_of s))"
  by (simp add: accept_reading_def Smoother_update_def filter_of_def smooth_def lit_1 Let_def)

lemma accept_reading_console:
  "console (accept_reading z s) = console s @ [Z_axis (fst (Smoother_update z FILTER_VAL (filter_of s)))]"
  by (simp add: accept_reading_def Smoother_update_def filter_of_def smooth_def lit_1 Let_def)

lemma loop_body_accept:
  "mlx_initialized s \<Longrightarrow> fst (mlx_read_data s) = Some z \<Longrightarrow>
   loop_body s = accept_reading z (snd (mlx_read_data s))"
  by (cases "mlx_read_data s") (simp add: loop_body_def)

text \<open>
  C6. In a polling cycle that accepts a reading \<open>z\<close>, the main loop changes the filter state
  as \<open>Smoother.update\<close> with the coefficient \<open>FILTER_VAL = 0.4f\<close> does, and prints the value
  that update returns: the first reading is stored and returned unchanged and the flag is
  set; a later one gives \<open>z * (1 - 0.4f) + smoothed * 0.4f\<close>, which is what \<open>smooth\<close>
  computes, in binary32. With the inputs 10 and then 20 the second update returns exactly 16.
\<close>

theorem smoother_update_in_loop:
  assumes "mlx_initialized s" and "fst (mlx_read_data s) = Some z"
  shows "filter_of (loop_body s) = snd (Smoother_update z FILTER_VAL (filter_of s)) \<and>
    console (loop_body s) = console s @ [Z_axis (fst (Smoother_update z FILTER_VAL (filter_of s)))] \<and>
    smooth raw c prev = fadd (fmul raw (fsub (Fin 1) c)) (fmul prev c) \<and>
    FILTER_VAL = lit (4 / 10) \<and>
    fst (Smoother_update (Fin 20) FILTER_VAL
          (snd (Smoother_update (Fin 10) FILTER_VAL \<lparr>smoothed_value = v0, initialized = False\<rparr>))) = Fin 16 \<and>
    (first_mag_reading s0 \<longrightarrow>
       smoothed_z (accept_reading (Fin 20) (accept_reading (Fin 10) s0)) = Fin 16)"
proof -
  have a: "filter_of (loop_body s) = snd (Smoother_update z FILTER_VAL (filter_of s))"
    using assms by (simp add: loop_body_accept accept_reading_filter filter_of_read_data)
  have b: "console (loop_body s) =
      console s @ [Z_axis (fst (Smoother_update z FILTER_VAL (filter_of s)))]"
    using assms
    by (simp add: loop_body_accept accept_reading_console filter_of_read_data console_read_data)
  have c: "smooth raw c prev = fadd (fmul raw (fsub (Fin 1) c)) (fmul prev c)"
    by (simp add: smooth_def lit_1)
  have d: "fst (Smoother_update (Fin 20) FILTER_VAL
          (snd (Smoother_update (Fin 10) FILTER_VAL \<lparr>smoothed_value = v0, initialized = False\<rparr>))) = Fin 16"
    using smooth_10_20 by (simp add: Smoother_update_def Let_def smooth_def lit_1)
  have e: "first_mag_reading s0 \<longrightarrow>
       smoothed_z (accept_reading (Fin 20) (accept_reading (Fin 10) s0)) = Fin 16"
    using smooth_10_20 by (simp add: accept_reading_def Let_def)
  show ?thesis
    using a b c d e by (simp add: FILTER_VAL_def)
qed

text \<open>A first cycle that reads 20.0242 mT, and the inputs 10 and 20 from the start.\<close>

theorem smoother_update_in_loop_witness:
  "smoothed_z (loop_body (ready MLX90393_GAIN_1X MLX90393_RES_16 [delivers [0], z_sample 0x00 0x64])) =
     Fin (656153 / 32768) \<and>
   \<not> first_mag_reading
     (loop_body (ready MLX90393_GAIN_1X MLX90393_RES_16 [delivers [0], z_sample 0x00 0x64])) \<and>
   smoothed_z (accept_reading (Fin 20) (accept_reading (Fin 10) (startup (scripted [])))) = Fin 16"
  using smoother_update_in_loop [of
      "ready MLX90393_GAIN_1X MLX90393_RES_16 [delivers [0], z_sample 0x00 0x64]"
      "Fin (656153 / 32768)" _ _ _ _ "startup (scripted [])"]
  by (simp add: mlx_read_data_eq mlx_start_measurement_eq mlx_read_measurement_eq
      fixture_defs decoder_defs field_1X_16_100 filter_of_def Smoother_update_def)

subsection \<open>Constant input\<close>

lemma smooth_step_bound:
  assumes "0 \<le> c" and "c < 1" and "\<bar>x\<bar> \<le> 2 ^ 100" and "\<bar>y - x\<bar> \<le> 2 ^ 103"
  shows "\<exists>y'. smooth (Fin x) (Fin c) (Fin y) = Fin y' \<and>
    \<bar>y' - x\<bar> \<le> (c + 3 / 2 ^ 24) * \<bar>y - x\<bar> + 6 * \<bar>x\<bar> / 2 ^ 24 + 1 / 2 ^ 148"
proof -
  define X where "X = \<bar>x\<bar>"
  define E where "E = \<bar>y - x\<bar>"
  define Y where "Y = \<bar>y\<bar>"
  have X: "0 \<le> X" "X \<le> 2 ^ 100"
    using assms(3) by (simp_all add: X_def)
  have E: "0 \<le> E" "E \<le> 2 ^ 103"
    using assms(4) by (simp_all add: E_def)
  have Y: "0 \<le> Y" "Y \<le> X + E"
    unfolding X_def E_def Y_def by linarith+
  have c1: "\<bar>1 - c\<bar> \<le> 1"
    using assms by simp
  then have "\<bar>1 - c\<bar> \<le> 2 ^ 126"
    by (rule order_trans) simp
  then obtain t where t: "round32 (1 - c) = Fin t"
    and t_err: "\<bar>t - (1 - c)\<bar> \<le> \<bar>1 - c\<bar> / 2 ^ 24 + 1 / 2 ^ 150"
    using round32_err by blast
  define dt where "dt = \<bar>t - (1 - c)\<bar>"
  have dt: "0 \<le> dt" "dt \<le> 1 / 2 ^ 24 + 1 / 2 ^ 150"
    using t_err c1 by (simp_all add: dt_def)
  have "\<bar>t\<bar> \<le> \<bar>1 - c\<bar> + dt"
    unfolding dt_def by linarith
  moreover have "(1::rat) / 2 ^ 150 \<le> 1 / 2 ^ 24" by simp
  ultimately have tabs: "\<bar>t\<bar> \<le> 1 + 2 / 2 ^ 24"
    using dt(2) c1 by linarith
  define a1 where "a1 = \<bar>x * t\<bar>"
  have a1: "0 \<le> a1" "a1 \<le> (1 + 2 / 2 ^ 24) * X"
    using mult_left_mono [OF tabs X(1)] by (simp_all add: a1_def X_def abs_mult mult.commute)
  have "\<bar>x * t\<bar> \<le> 2 ^ 126"
    using a1 X by (simp add: a1_def)
  then obtain p1 where p1: "round32 (x * t) = Fin p1"
    and p1_err: "\<bar>p1 - x * t\<bar> \<le> \<bar>x * t\<bar> / 2 ^ 24 + 1 / 2 ^ 150"
    using round32_err by blast
  define a2 where "a2 = \<bar>y * c\<bar>"
  have cabs: "\<bar>c\<bar> \<le> 1" using assms by simp
  have a2: "0 \<le> a2" "a2 \<le> Y"
    using mult_left_mono [OF cabs Y(1)] by (simp_all add: a2_def Y_def abs_mult)
  have "\<bar>y * c\<bar> \<le> 2 ^ 126"
    using a2 Y X E by (simp add: a2_def)
  then obtain p2 where p2: "round32 (y * c) = Fin p2"
    and p2_err: "\<bar>p2 - y * c\<bar> \<le> \<bar>y * c\<bar> / 2 ^ 24 + 1 / 2 ^ 150"
    using round32_err by blast
  define d1 where "d1 = \<bar>p1 - x * t\<bar>"
  define d2 where "d2 = \<bar>p2 - y * c\<bar>"
  have d1: "0 \<le> d1" "d1 \<le> a1 / 2 ^ 24 + 1 / 2 ^ 150"
    using p1_err by (simp_all add: d1_def a1_def)
  have d2: "0 \<le> d2" "d2 \<le> a2 / 2 ^ 24 + 1 / 2 ^ 150"
    using p2_err by (simp_all add: d2_def a2_def)
  define s where "s = \<bar>p1 + p2\<bar>"
  have s: "0 \<le> s" "s \<le> a1 + d1 + a2 + d2"
    unfolding s_def a1_def a2_def d1_def d2_def by linarith+
  have "s \<le> 2 ^ 126"
    using s d1 d2 a1 a2 X E Y by simp
  then obtain y' where y': "round32 (p1 + p2) = Fin y'"
    and y_err: "\<bar>y' - (p1 + p2)\<bar> \<le> \<bar>p1 + p2\<bar> / 2 ^ 24 + 1 / 2 ^ 150"
    unfolding s_def using round32_err by blast
  define d3 where "d3 = \<bar>y' - (p1 + p2)\<bar>"
  have d3: "d3 \<le> s / 2 ^ 24 + 1 / 2 ^ 150"
    using y_err by (simp add: d3_def s_def)
  define d4 where "d4 = \<bar>x * (t - (1 - c))\<bar>"
  have d4: "d4 \<le> X * (1 / 2 ^ 24 + 1 / 2 ^ 150)"
    using mult_left_mono [OF dt(2) X(1)] by (simp add: d4_def dt_def X_def abs_mult)
  define cE where "cE = \<bar>c * (y - x)\<bar>"
  have cE: "cE = c * E"
    using assms(1) by (simp add: cE_def E_def abs_mult)
  have split: "y' - x = (y' - (p1 + p2)) + (p1 - x * t) + (p2 - y * c) + x * (t - (1 - c)) + c * (y - x)"
    by (simp add: algebra_simps)
  have "\<bar>y' - x\<bar> \<le> d3 + d1 + d2 + d4 + cE"
    unfolding split d1_def d2_def d3_def d4_def cE_def by linarith
  moreover have "d3 + d1 + d2 + d4 \<le> 3 / 2 ^ 24 * E + 6 * X / 2 ^ 24 + 1 / 2 ^ 148"
    using d1 d2 d3 d4 s a1 a2 X E Y by simp
  moreover have "(c + 3 / 2 ^ 24) * E = c * E + 3 / 2 ^ 24 * E"
    by (simp add: algebra_simps)
  ultimately have "\<bar>y' - x\<bar> \<le> (c + 3 / 2 ^ 24) * E + 6 * X / 2 ^ 24 + 1 / 2 ^ 148"
    using cE by linarith
  moreover have "smooth (Fin x) (Fin c) (Fin y) = Fin y'"
    using t p1 p2 y' by (simp add: smooth_def fsub_def lit_1)
  ultimately show ?thesis
    by (auto simp: X_def E_def)
qed


lemma smooth_iterates_near:
  assumes "0 \<le> c" and "c \<le> 1 - 1 / 2 ^ 22" and "\<bar>x\<bar> \<le> 2 ^ 100"
  shows "\<exists>y. (smooth (Fin x) (Fin c) ^^ n) (Fin x) = Fin y \<and>
    (1 - c - 3 / 2 ^ 24) * \<bar>y - x\<bar> \<le> 6 * \<bar>x\<bar> / 2 ^ 24 + 1 / 2 ^ 148"
proof (induction n)
  case 0
  show ?case by simp
next
  case (Suc n)
  then obtain y where y: "(smooth (Fin x) (Fin c) ^^ n) (Fin x) = Fin y"
    and inv: "(1 - c - 3 / 2 ^ 24) * \<bar>y - x\<bar> \<le> 6 * \<bar>x\<bar> / 2 ^ 24 + 1 / 2 ^ 148"
    by blast
  define k where "k = 1 - c - 3 / 2 ^ 24"
  define E where "E = \<bar>y - x\<bar>"
  define rho where "rho = 6 * \<bar>x\<bar> / 2 ^ 24 + 1 / 2 ^ 148"
  have k: "1 / 2 ^ 24 \<le> k" "k \<le> 1"
    using assms(1,2) by (simp_all add: k_def)
  have E: "0 \<le> E" by (simp add: E_def)
  have kE: "k * E \<le> rho"
    using inv by (simp add: k_def E_def rho_def)
  have "1 / 2 ^ 24 * E \<le> k * E"
    using k(1) E by (rule mult_right_mono)
  then have "E \<le> 2 ^ 24 * rho"
    using kE by simp
  moreover have "2 ^ 24 * rho \<le> 2 ^ 103"
    using assms(3) by (simp add: rho_def)
  ultimately have far: "\<bar>y - x\<bar> \<le> 2 ^ 103"
    by (simp add: E_def)
  have c1: "c < 1" using assms(2) by simp
  obtain y' where y': "smooth (Fin x) (Fin c) (Fin y) = Fin y'"
    and step: "\<bar>y' - x\<bar> \<le> (c + 3 / 2 ^ 24) * \<bar>y - x\<bar> + 6 * \<bar>x\<bar> / 2 ^ 24 + 1 / 2 ^ 148"
    using smooth_step_bound [OF assms(1) c1 assms(3) far] by blast
  define E' where "E' = \<bar>y' - x\<bar>"
  have km: "1 - k = c + 3 / 2 ^ 24" by (simp add: k_def)
  have "E' \<le> (1 - k) * E + rho"
    unfolding km E'_def E_def rho_def using step by (simp only: add.assoc)
  then have "k * E' \<le> k * ((1 - k) * E + rho)"
    using k(1) by (intro mult_left_mono) simp_all
  also have "\<dots> = (1 - k) * (k * E) + k * rho"
    by (simp add: algebra_simps)
  also have "\<dots> \<le> (1 - k) * rho + k * rho"
    using mult_left_mono [OF kE, of "1 - k"] k(2) by simp
  also have "\<dots> = rho"
    by (simp add: algebra_simps)
  finally have "k * E' \<le> rho" .
  then show ?case
    using y y' by (simp add: k_def E'_def rho_def)
qed

lemma smooth_iterates_drift:
  assumes "0 \<le> c" and "c < 1" and "\<bar>x\<bar> \<le> 2 ^ 100"
  shows "n \<le> 2 ^ 21 \<Longrightarrow>
    \<exists>y. (smooth (Fin x) (Fin c) ^^ n) (Fin x) = Fin y \<and>
      \<bar>y - x\<bar> \<le> 2 * of_nat n * (6 * \<bar>x\<bar> / 2 ^ 24 + 1 / 2 ^ 148)"
proof (induction n)
  case 0
  show ?case by simp
next
  case (Suc n)
  define rho where "rho = 6 * \<bar>x\<bar> / 2 ^ 24 + 1 / 2 ^ 148"
  define N where "N = rat_of_nat n"
  define w where "w = N * rho"
  have n: "n \<le> 2 ^ 21" using Suc.prems by simp
  then obtain y where y: "(smooth (Fin x) (Fin c) ^^ n) (Fin x) = Fin y"
    and inv: "\<bar>y - x\<bar> \<le> 2 * w"
    using Suc.IH by (auto simp: rho_def N_def w_def mult.assoc)
  define E where "E = \<bar>y - x\<bar>"
  have E: "0 \<le> E" "E \<le> 2 * w" using inv by (simp_all add: E_def)
  have rho: "0 \<le> rho" "rho \<le> 6 * 2 ^ 100 / 2 ^ 24 + 1 / 2 ^ 148"
    using assms(3) by (simp_all add: rho_def)
  have "rat_of_nat n \<le> rat_of_nat (2 ^ 21)"
    using n by (simp only: of_nat_le_iff)
  then have N: "0 \<le> N" "N \<le> 2 ^ 21"
    by (simp_all add: N_def)
  have w: "0 \<le> w" "w \<le> 2 ^ 21 * rho"
    using N rho(1) by (simp_all add: w_def mult_right_mono)
  have "E \<le> 2 ^ 103"
    using E(2) w(2) rho(2) by simp
  then have far: "\<bar>y - x\<bar> \<le> 2 ^ 103" by (simp add: E_def)
  obtain y' where y': "smooth (Fin x) (Fin c) (Fin y) = Fin y'"
    and step: "\<bar>y' - x\<bar> \<le> (c + 3 / 2 ^ 24) * E + rho"
    using smooth_step_bound [OF assms far] by (auto simp: E_def rho_def add.assoc)
  have "(c + 3 / 2 ^ 24) * E \<le> (1 + 3 / 2 ^ 24) * E"
    using assms(2) E(1) by (intro mult_right_mono) simp_all
  also have "\<dots> = E + 3 / 2 ^ 24 * E"
    by (simp add: algebra_simps)
  finally have s1: "\<bar>y' - x\<bar> \<le> E + 3 / 2 ^ 24 * E + rho"
    using step by linarith
  have "N * (6 / 2 ^ 24) \<le> 1"
    using N(2) by simp
  then have "N * (6 / 2 ^ 24) * rho \<le> 1 * rho"
    using rho(1) by (rule mult_right_mono)
  moreover have "N * (6 / 2 ^ 24) * rho = 6 / 2 ^ 24 * w"
    by (simp add: w_def)
  ultimately have s2: "6 / 2 ^ 24 * w \<le> rho" by simp
  have "\<bar>y' - x\<bar> \<le> 2 * w + 2 * rho"
    using s1 s2 E(2) by simp
  moreover have "2 * w + 2 * rho = 2 * rat_of_nat (Suc n) * rho"
    by (simp add: w_def N_def algebra_simps)
  ultimately show ?case
    using y y' by (auto simp: rho_def)
qed

lemma smooth_29_second: "smooth (Fin 29) FILTER_VAL (Fin (15204353 / 524288)) = Fin (7602177 / 262144)"
  by code_simp

lemma smooth_29_third: "smooth (Fin 29) FILTER_VAL (Fin (7602177 / 262144)) = Fin (7602177 / 262144)"
  by code_simp

text \<open>
  C9, as amended. Let \<open>0 <= c < 1\<close>, let \<open>x\<close> be finite with \<open>|x| <= 2 ^ 100\<close>, and let
  \<open>rho = 6 * |x| / 2 ^ 24 + 1 / 2 ^ 148\<close>. One update with the input \<open>x\<close> on any finite state
  \<open>y\<close> with \<open>|y - x| <= 2 ^ 103\<close> returns a finite value \<open>y'\<close> with
  \<open>|y' - x| <= (c + 3 / 2 ^ 24) * |y - x| + rho\<close>; on the state \<open>x\<close> itself the result is
  within \<open>rho\<close> of \<open>x\<close>. Repeated updates with the constant input \<open>x\<close>, started on the state
  \<open>x\<close>, keep the state finite; after \<open>n <= 2 ^ 21\<close> of them it is within \<open>2 * n * rho\<close> of
  \<open>x\<close>, and when \<open>c <= 1 - 1 / 2 ^ 22\<close> it is within \<open>rho / (1 - c - 3 / 2 ^ 24)\<close> of \<open>x\<close> after
  any number of them.
\<close>

theorem smooth_constant_input_bound:
  assumes "0 \<le> c" and "c < 1" and "\<bar>x\<bar> \<le> 2 ^ 100"
  shows "(\<forall>y. \<bar>y - x\<bar> \<le> 2 ^ 103 \<longrightarrow>
       (\<exists>y'. smooth (Fin x) (Fin c) (Fin y) = Fin y' \<and>
          \<bar>y' - x\<bar> \<le> (c + 3 / 2 ^ 24) * \<bar>y - x\<bar> + 6 * \<bar>x\<bar> / 2 ^ 24 + 1 / 2 ^ 148)) \<and>
    (\<forall>n. n \<le> 2 ^ 21 \<longrightarrow>
       (\<exists>y. (smooth (Fin x) (Fin c) ^^ n) (Fin x) = Fin y \<and>
          \<bar>y - x\<bar> \<le> 2 * of_nat n * (6 * \<bar>x\<bar> / 2 ^ 24 + 1 / 2 ^ 148))) \<and>
    (c \<le> 1 - 1 / 2 ^ 22 \<longrightarrow>
       (\<forall>n. \<exists>y. (smooth (Fin x) (Fin c) ^^ n) (Fin x) = Fin y \<and>
          (1 - c - 3 / 2 ^ 24) * \<bar>y - x\<bar> \<le> 6 * \<bar>x\<bar> / 2 ^ 24 + 1 / 2 ^ 148))"
proof (intro conjI allI impI)
  fix y :: rat
  assume "\<bar>y - x\<bar> \<le> 2 ^ 103"
  then show "\<exists>y'. smooth (Fin x) (Fin c) (Fin y) = Fin y' \<and>
      \<bar>y' - x\<bar> \<le> (c + 3 / 2 ^ 24) * \<bar>y - x\<bar> + 6 * \<bar>x\<bar> / 2 ^ 24 + 1 / 2 ^ 148"
    using assms by (intro smooth_step_bound)
next
  fix n :: nat
  assume "n \<le> 2 ^ 21"
  then show "\<exists>y. (smooth (Fin x) (Fin c) ^^ n) (Fin x) = Fin y \<and>
      \<bar>y - x\<bar> \<le> 2 * of_nat n * (6 * \<bar>x\<bar> / 2 ^ 24 + 1 / 2 ^ 148)"
    using assms by (intro smooth_iterates_drift)
next
  fix n :: nat
  assume "c \<le> 1 - 1 / 2 ^ 22"
  then show "\<exists>y. (smooth (Fin x) (Fin c) ^^ n) (Fin x) = Fin y \<and>
      (1 - c - 3 / 2 ^ 24) * \<bar>y - x\<bar> \<le> 6 * \<bar>x\<bar> / 2 ^ 24 + 1 / 2 ^ 148"
    using assms by (intro smooth_iterates_near)
qed

text \<open>
  The input 29 with the coefficient of the program, \<open>0.4f = 13421773 / 33554432\<close>: the
  first update gives 29 plus one unit in the last place, the second 29 plus two.
\<close>

theorem smooth_constant_input_bound_witness:
  "(smooth (Fin 29) (Fin (13421773 / 33554432)) ^^ 2) (Fin 29) = Fin (7602177 / 262144) \<and>
   (1 - 13421773 / 33554432 - 3 / 2 ^ 24) * \<bar>7602177 / 262144 - 29\<bar> \<le> (6::rat) * \<bar>29\<bar> / 2 ^ 24 + 1 / 2 ^ 148 \<and>
   \<bar>7602177 / 262144 - 29\<bar> \<le> 2 * rat_of_nat 2 * (6 * \<bar>29\<bar> / 2 ^ 24 + 1 / 2 ^ 148) \<and>
   smooth (Fin 29) (Fin (13421773 / 33554432)) (Fin 29) = Fin (15204353 / 524288) \<and>
   \<bar>15204353 / 524288 - 29\<bar> \<le> (6::rat) * \<bar>29\<bar> / 2 ^ 24 + 1 / 2 ^ 148"
proof -
  have h: "(0::rat) \<le> 13421773 / 33554432" "(13421773::rat) / 33554432 < 1" "\<bar>29::rat\<bar> \<le> 2 ^ 100"
    "(13421773::rat) / 33554432 \<le> 1 - 1 / 2 ^ 22" "\<bar>29 - 29 :: rat\<bar> \<le> 2 ^ 103"
    "(2::nat) \<le> 2 ^ 21"
    by simp_all
  note th = smooth_constant_input_bound [OF h(1) h(2) h(3)]
  have two: "(smooth (Fin 29) (Fin (13421773 / 33554432)) ^^ 2) (Fin 29) = Fin (7602177 / 262144)"
    using smooth_29 smooth_29_second by (simp add: filter_val_value numeral_2_eq_2)
  from th h(4) obtain y where
    "(smooth (Fin 29) (Fin (13421773 / 33554432)) ^^ 2) (Fin 29) = Fin y"
    "(1 - 13421773 / 33554432 - 3 / 2 ^ 24) * \<bar>y - 29\<bar> \<le> 6 * \<bar>29\<bar> / 2 ^ 24 + 1 / 2 ^ 148"
    by blast
  then have a: "(1 - 13421773 / 33554432 - 3 / 2 ^ 24) * \<bar>7602177 / 262144 - 29\<bar>
      \<le> (6::rat) * \<bar>29\<bar> / 2 ^ 24 + 1 / 2 ^ 148"
    using two by simp
  from th h(5) obtain y' where
    "smooth (Fin 29) (Fin (13421773 / 33554432)) (Fin 29) = Fin y'"
    "\<bar>y' - 29\<bar> \<le> (13421773 / 33554432 + 3 / 2 ^ 24) * \<bar>29 - 29\<bar> + 6 * \<bar>29\<bar> / 2 ^ 24 + 1 / 2 ^ 148"
    by blast
  then have b: "\<bar>15204353 / 524288 - 29\<bar> \<le> (6::rat) * \<bar>29\<bar> / 2 ^ 24 + 1 / 2 ^ 148"
    using smooth_29 by (simp add: filter_val_value)
  from th h(6) obtain y'' where
    "(smooth (Fin 29) (Fin (13421773 / 33554432)) ^^ 2) (Fin 29) = Fin y''"
    "\<bar>y'' - 29\<bar> \<le> 2 * rat_of_nat 2 * (6 * \<bar>29\<bar> / 2 ^ 24 + 1 / 2 ^ 148)"
    by blast
  then have d: "\<bar>7602177 / 262144 - 29\<bar> \<le> 2 * rat_of_nat 2 * (6 * \<bar>29\<bar> / 2 ^ 24 + 1 / 2 ^ 148)"
    using two by simp
  show ?thesis
    using two a b d smooth_29 by (simp add: filter_val_value)
qed

text \<open>
  C9, as stated, fails: 29 is a binary32 number and \<open>FILTER_VAL\<close> lies in \<open>[0, 1)\<close>, but
  \<open>smooth(29, FILTER_VAL, 29)\<close> is \<open>15204353 / 524288\<close>, about 29.0000019, not 29, and the
  following updates give \<open>7602177 / 262144\<close>, about 29.0000038, and stay there.
\<close>

theorem smooth_fixed_point_counterexample:
  "smooth (Fin 29) FILTER_VAL (Fin 29) = Fin (15204353 / 524288) \<and>
   smooth (Fin 29) FILTER_VAL (Fin 29) \<noteq> Fin 29 \<and>
   (smooth (Fin 29) FILTER_VAL ^^ 2) (Fin 29) = Fin (7602177 / 262144) \<and>
   (smooth (Fin 29) FILTER_VAL ^^ 3) (Fin 29) = Fin (7602177 / 262144) \<and>
   lit 29 = Fin 29 \<and> fge FILTER_VAL (Fin 0) \<and> flt FILTER_VAL (Fin 1)"
  by code_simp

end
